theory Spec2Isabelle
  imports Main "HOL-Library.AList"
begin

section \<open>Python values\<close>

text \<open>
  The runner (\<^verbatim>\<open>src/apify_runner.py\<close>) handles dynamically typed values: parsed JSON
  (the configuration, the checkpoint, the response of the scraping service) and, once pymongo
  has seen a document, \<^verbatim>\<open>bson.ObjectId\<close> values.  A dictionary keeps its insertion
  order, so it is an association list; JSON keys are strings.  \<open>PObjectId s\<close> is an
  ObjectId whose \<^verbatim>\<open>str()\<close> is \<open>s\<close>; \<open>PObject n\<close> stands for any other Python object
  (a \<^verbatim>\<open>datetime\<close>, a \<^verbatim>\<open>set\<close>, ...) of class \<open>n\<close>.  JSON numbers are integers here;
  floating point numbers are outside the model.
\<close>

datatype pyval =
    PNone
  | PBool bool
  | PInt int
  | PStr string
  | PList "pyval list"
  | PDict "(string \<times> pyval) list"
  | PObjectId string
  | PObject string

type_synonym pydict = "(string \<times> pyval) list"

text \<open>
  Exceptions, each carrying the text that \<^verbatim>\<open>str(e)\<close> gives (for a
  \<^verbatim>\<open>KeyError\<close>, the repr of the key).  All of them are subclasses of
  \<^verbatim>\<open>Exception\<close>, so \<^verbatim>\<open>except Exception\<close> catches every one.
\<close>

datatype pyerr =
    TypeError string
  | AttributeError string
  | KeyError string
  | IndexError string
  | ValueError string
  | JSONDecodeError string
  | OSError string
  | RequestException string
  | HTTPError string
  | PyMongoError string

fun str_exc :: "pyerr \<Rightarrow> string" where
  "str_exc (TypeError m) = m"
| "str_exc (AttributeError m) = m"
| "str_exc (KeyError k) = k"
| "str_exc (IndexError m) = m"
| "str_exc (ValueError m) = m"
| "str_exc (JSONDecodeError m) = m"
| "str_exc (OSError m) = m"
| "str_exc (RequestException m) = m"
| "str_exc (HTTPError m) = m"
| "str_exc (PyMongoError m) = m"

fun type_name :: "pyval \<Rightarrow> string" where
  "type_name PNone = ''NoneType''"
| "type_name (PBool _) = ''bool''"
| "type_name (PInt _) = ''int''"
| "type_name (PStr _) = ''str''"
| "type_name (PList _) = ''list''"
| "type_name (PDict _) = ''dict''"
| "type_name (PObjectId _) = ''ObjectId''"
| "type_name (PObject n) = n"

definition quoted :: "string \<Rightarrow> string" where
  "quoted s = [CHR 0x27] @ s @ [CHR 0x27]"

definition no_attribute :: "pyval \<Rightarrow> string \<Rightarrow> pyerr" where
  "no_attribute v a =
     AttributeError (quoted (type_name v) @ '' object has no attribute '' @ quoted a)"

text \<open>Sequencing of a computation that may raise.\<close>

definition bindE :: "pyerr + 'a \<Rightarrow> ('a \<Rightarrow> pyerr + 'b) \<Rightarrow> pyerr + 'b" where
  "bindE m f = (case m of Inl e \<Rightarrow> Inl e | Inr x \<Rightarrow> f x)"

subsection \<open>Truthiness, \<^verbatim>\<open>len\<close>, iteration, subscripts, \<^verbatim>\<open>.get\<close>\<close>

fun truthy :: "pyval \<Rightarrow> bool" where
  "truthy PNone = False"
| "truthy (PBool b) = b"
| "truthy (PInt i) = (i \<noteq> 0)"
| "truthy (PStr s) = (s \<noteq> [])"
| "truthy (PList xs) = (xs \<noteq> [])"
| "truthy (PDict d) = (d \<noteq> [])"
| "truthy (PObjectId _) = True"
| "truthy (PObject _) = True"

fun py_len :: "pyval \<Rightarrow> pyerr + nat" where
  "py_len (PStr s) = Inr (length s)"
| "py_len (PList xs) = Inr (length xs)"
| "py_len (PDict d) = Inr (length d)"
| "py_len v = Inl (TypeError (''object of type '' @ quoted (type_name v) @ '' has no len()''))"

text \<open>\<^verbatim>\<open>for x in v\<close>: a list gives its elements, a dict its keys, a string its characters.\<close>

fun py_iter :: "pyval \<Rightarrow> pyerr + pyval list" where
  "py_iter (PList xs) = Inr xs"
| "py_iter (PDict d) = Inr (map (\<lambda>kv. PStr (fst kv)) d)"
| "py_iter (PStr s) = Inr (map (\<lambda>c. PStr [c]) s)"
| "py_iter v = Inl (TypeError (quoted (type_name v) @ '' object is not iterable''))"

text \<open>\<^verbatim>\<open>v[0]\<close>.  A dict parsed from JSON has string keys only, so the key \<open>0\<close> is absent.\<close>

fun py_first :: "pyval \<Rightarrow> pyerr + pyval" where
  "py_first (PList xs) =
     (case xs of [] \<Rightarrow> Inl (IndexError ''list index out of range'') | x # _ \<Rightarrow> Inr x)"
| "py_first (PStr s) =
     (case s of [] \<Rightarrow> Inl (IndexError ''string index out of range'') | c # _ \<Rightarrow> Inr (PStr [c]))"
| "py_first (PDict d) = Inl (KeyError ''0'')"
| "py_first v = Inl (TypeError (quoted (type_name v) @ '' object is not subscriptable''))"

text \<open>\<^verbatim>\<open>v[k]\<close> for a string key \<open>k\<close>.\<close>

fun py_item :: "pyval \<Rightarrow> string \<Rightarrow> pyerr + pyval" where
  "py_item (PDict d) k = (case map_of d k of None \<Rightarrow> Inl (KeyError (quoted k)) | Some v \<Rightarrow> Inr v)"
| "py_item (PList xs) k = Inl (TypeError ''list indices must be integers or slices, not str'')"
| "py_item (PStr s) k = Inl (TypeError (''string indices must be integers, not '' @ quoted ''str''))"
| "py_item v k = Inl (TypeError (quoted (type_name v) @ '' object is not subscriptable''))"

text \<open>\<^verbatim>\<open>v.get(k, default)\<close>: only a dict has the method.\<close>

fun py_get :: "pyval \<Rightarrow> string \<Rightarrow> pyval \<Rightarrow> pyerr + pyval" where
  "py_get (PDict d) k dflt = Inr (case map_of d k of None \<Rightarrow> dflt | Some v \<Rightarrow> v)"
| "py_get v k dflt = Inl (no_attribute v ''get'')"

text \<open>\<^verbatim>\<open>d[k] = v\<close> on a dict: an existing key keeps its place, a new key goes last.\<close>

definition dict_set :: "string \<Rightarrow> pyval \<Rightarrow> pydict \<Rightarrow> pydict" where
  "dict_set k v d = AList.update k v d"

subsection \<open>String methods\<close>

fun starts_with :: "string \<Rightarrow> string \<Rightarrow> bool" where
  "starts_with [] s = True"
| "starts_with (p # ps) [] = False"
| "starts_with (p # ps) (c # cs) = (p = c \<and> starts_with ps cs)"

text \<open>\<^verbatim>\<open>sub in s\<close> for strings.\<close>

fun contains :: "string \<Rightarrow> string \<Rightarrow> bool" where
  "contains sub [] = (sub = [])"
| "contains sub (c # cs) = (starts_with sub (c # cs) \<or> contains sub cs)"

text \<open>
  \<^verbatim>\<open>s.replace(sub, new)\<close> and \<^verbatim>\<open>s.split(sep)\<close> for a non-empty \<open>sub\<close> or \<open>sep\<close>: the
  string is scanned from the left and the occurrences found do not overlap.  \<open>skip\<close> counts
  the characters of the current occurrence that are still to be passed over.
\<close>

fun replace_from :: "string \<Rightarrow> string \<Rightarrow> nat \<Rightarrow> string \<Rightarrow> string" where
  "replace_from sub new skip [] = []"
| "replace_from sub new skip (c # cs) =
     (if 0 < skip then replace_from sub new (skip - 1) cs
      else if starts_with sub (c # cs) then new @ replace_from sub new (length sub - 1) cs
      else c # replace_from sub new 0 cs)"

definition py_replace :: "string \<Rightarrow> string \<Rightarrow> string \<Rightarrow> string" where
  "py_replace sub new s = replace_from sub new 0 s"

fun split_from :: "string \<Rightarrow> nat \<Rightarrow> string \<Rightarrow> string \<Rightarrow> string list" where
  "split_from sep skip cur [] = [cur]"
| "split_from sep skip cur (c # cs) =
     (if 0 < skip then split_from sep (skip - 1) cur cs
      else if starts_with sep (c # cs) then cur # split_from sep (length sep - 1) [] cs
      else split_from sep 0 (cur @ [c]) cs)"

definition py_split :: "string \<Rightarrow> string \<Rightarrow> string list" where
  "py_split sep s = split_from sep 0 [] s"

text \<open>\<^verbatim>\<open>s.strip(chars)\<close> for a one-character \<open>chars\<close>.\<close>

definition py_strip :: "char \<Rightarrow> string \<Rightarrow> string" where
  "py_strip ch s = rev (dropWhile (\<lambda>c. c = ch) (rev (dropWhile (\<lambda>c. c = ch) s)))"

text \<open>
  \<^verbatim>\<open>s.title()\<close> on ASCII text: a letter that follows a letter is lowered, any other letter
  is raised.  Characters beyond ASCII are taken as uncased.
\<close>

definition is_upper :: "char \<Rightarrow> bool" where
  "is_upper c = (65 \<le> (of_char c :: nat) \<and> (of_char c :: nat) \<le> 90)"

definition is_lower :: "char \<Rightarrow> bool" where
  "is_lower c = (97 \<le> (of_char c :: nat) \<and> (of_char c :: nat) \<le> 122)"

definition to_upper :: "char \<Rightarrow> char" where
  "to_upper c = (if is_lower c then char_of ((of_char c :: nat) - 32) else c)"

definition to_lower :: "char \<Rightarrow> char" where
  "to_lower c = (if is_upper c then char_of ((of_char c :: nat) + 32) else c)"

fun title_from :: "bool \<Rightarrow> string \<Rightarrow> string" where
  "title_from prev_cased [] = []"
| "title_from prev_cased (c # cs) =
     (if is_upper c \<or> is_lower c
      then (if prev_cased then to_lower c else to_upper c) # title_from True cs
      else c # title_from False cs)"

definition py_title :: "string \<Rightarrow> string" where
  "py_title s = title_from False s"

text \<open>Decimal digits of a natural number; \<^verbatim>\<open>str\<close> of an integer; \<^verbatim>\<open>%02d\<close>.\<close>

fun dec :: "nat \<Rightarrow> string" where
  "dec n = (if n < 10 then [char_of (48 + n)] else dec (n div 10) @ [char_of (48 + n mod 10)])"

declare dec.simps [simp del]

definition str_int :: "int \<Rightarrow> string" where
  "str_int i = (if i < 0 then CHR ''-'' # dec (nat (- i)) else dec (nat i))"

definition two_digits :: "nat \<Rightarrow> string" where
  "two_digits n = (if n < 10 then CHR ''0'' # dec n else dec n)"

section \<open>The world outside the process\<close>

text \<open>
  What the libraries and the services do is a parameter of the model, fixed for a run:
  \<^item> \<open>dumps\<close>, \<open>dumps_indent\<close>: the text \<^verbatim>\<open>json.dumps\<close> renders for a value made of JSON
    types only (compact, and with \<^verbatim>\<open>indent=2\<close>);
  \<^item> \<open>loads\<close>: \<^verbatim>\<open>json.loads\<close>, the parsed value or the message of the JSONDecodeError;
  \<^item> \<open>py_repr\<close>: \<^verbatim>\<open>str()\<close> of a list, a dict or an arbitrary object;
  \<^item> \<open>write_error\<close>: for a path, how writing the file fails, if it does: \<open>AtOpen m\<close> when
    the open raises the OSError with message \<open>m\<close> (a missing directory, a permission), and
    \<open>AtWrite m k\<close> when the open succeeds and the write, or the flush at the end of the
    \<^verbatim>\<open>with\<close> block, raises it (a full disk, a quota) after \<open>k\<close> characters of the text
    have reached the file;
  \<^item> \<open>rejects\<close>: for the documents of the collection and a new document, the message of
    the error with which the store refuses the insert, if it does;
  \<^item> \<open>new_oid\<close>: the text of the \<open>n\<close>-th ObjectId the driver generates.
\<close>

datatype write_fault = AtOpen string | AtWrite string nat

record env =
  dumps :: "pyval \<Rightarrow> string"
  dumps_indent :: "pyval \<Rightarrow> string"
  loads :: "string \<Rightarrow> string + pyval"
  py_repr :: "pyval \<Rightarrow> string"
  write_error :: "string \<Rightarrow> write_fault option"
  rejects :: "pyval list \<Rightarrow> pyval \<Rightarrow> string option"
  new_oid :: "nat \<Rightarrow> string"

text \<open>
  The state the process changes: the files (text by path), the documents of the collection
  and the number of ObjectIds generated so far.
\<close>

record world =
  files :: "string \<Rightarrow> string option"
  docs :: "pyval list"
  oids :: nat

text \<open>An operation returns its value or the exception it raised, and the world it leaves.\<close>

type_synonym 'a res = "(pyerr + 'a) \<times> world"

text \<open>
  \<^verbatim>\<open>open(path, "w")\<close> and \<^verbatim>\<open>open(path, "a")\<close>: the open fails as a whole, leaving the
  file as it was, or succeeds; \<open>"w"\<close> empties the file, \<open>"a"\<close> creates it when it is missing.
\<close>

definition open_w :: "env \<Rightarrow> string \<Rightarrow> world \<Rightarrow> unit res" where
  "open_w E path w =
     (case write_error E path of
        Some (AtOpen m) \<Rightarrow> (Inl (OSError m), w)
      | _ \<Rightarrow> (Inr (), w\<lparr>files := (files w)(path \<mapsto> [])\<rparr>))"

definition open_a :: "env \<Rightarrow> string \<Rightarrow> world \<Rightarrow> unit res" where
  "open_a E path w =
     (case write_error E path of
        Some (AtOpen m) \<Rightarrow> (Inl (OSError m), w)
      | _ \<Rightarrow>
          (Inr (),
           w\<lparr>files := (files w)(path \<mapsto> (case files w path of None \<Rightarrow> [] | Some old \<Rightarrow> old))\<rparr>))"

text \<open>
  Text put at the end of a file, and \<^verbatim>\<open>f.write(s)\<close> on an open file together with the
  flush that ends the \<^verbatim>\<open>with\<close> block: the text goes at the end of the file; when the
  write fails, the characters that had reached the file stay in it and the OSError
  propagates.
\<close>

definition put_text :: "string \<Rightarrow> string \<Rightarrow> world \<Rightarrow> world" where
  "put_text path s w =
     w\<lparr>files := (files w)(path \<mapsto> (case files w path of None \<Rightarrow> s | Some old \<Rightarrow> old @ s))\<rparr>"

definition f_write :: "env \<Rightarrow> string \<Rightarrow> string \<Rightarrow> world \<Rightarrow> unit res" where
  "f_write E path s w =
     (case write_error E path of
        Some (AtWrite m k) \<Rightarrow> (Inl (OSError m), put_text path (take k s) w)
      | _ \<Rightarrow> (Inr (), put_text path s w))"

section \<open>JSON encoding\<close>

text \<open>
  \<^verbatim>\<open>json.JSONEncoder\<close> walks a value depth first and calls its \<^verbatim>\<open>default\<close> hook on every
  object that is not of a JSON type; the first hook that raises ends the encoding.  The two
  hooks of the program return a string or raise, so the hook's result is not walked again.
\<close>

definition base_default :: "pyval \<Rightarrow> pyerr + pyval" where
  "base_default v =
     Inl (TypeError (''Object of type '' @ type_name v @ '' is not JSON serializable''))"

text \<open>\<^verbatim>\<open>MongoJSONEncoder.default\<close> (lines 15-19).\<close>

definition mongo_default :: "pyval \<Rightarrow> pyerr + pyval" where
  "mongo_default obj = (case obj of PObjectId s \<Rightarrow> Inr (PStr s) | _ \<Rightarrow> base_default obj)"

fun encode :: "(pyval \<Rightarrow> pyerr + pyval) \<Rightarrow> pyval \<Rightarrow> pyerr + pyval"
  and encode_list :: "(pyval \<Rightarrow> pyerr + pyval) \<Rightarrow> pyval list \<Rightarrow> pyerr + pyval list"
  and encode_items :: "(pyval \<Rightarrow> pyerr + pyval) \<Rightarrow> pydict \<Rightarrow> pyerr + pydict" where
  "encode dflt PNone = Inr PNone"
| "encode dflt (PBool b) = Inr (PBool b)"
| "encode dflt (PInt i) = Inr (PInt i)"
| "encode dflt (PStr s) = Inr (PStr s)"
| "encode dflt (PList xs) =
     (case encode_list dflt xs of Inl e \<Rightarrow> Inl e | Inr ys \<Rightarrow> Inr (PList ys))"
| "encode dflt (PDict d) =
     (case encode_items dflt d of Inl e \<Rightarrow> Inl e | Inr d' \<Rightarrow> Inr (PDict d'))"
| "encode dflt (PObjectId s) = dflt (PObjectId s)"
| "encode dflt (PObject n) = dflt (PObject n)"
| "encode_list dflt [] = Inr []"
| "encode_list dflt (x # xs) =
     (case encode dflt x of
        Inl e \<Rightarrow> Inl e
      | Inr y \<Rightarrow> (case encode_list dflt xs of Inl e \<Rightarrow> Inl e | Inr ys \<Rightarrow> Inr (y # ys)))"
| "encode_items dflt [] = Inr []"
| "encode_items dflt (kv # d) =
     (case encode dflt (snd kv) of
        Inl e \<Rightarrow> Inl e
      | Inr y \<Rightarrow>
          (case encode_items dflt d of Inl e \<Rightarrow> Inl e | Inr d' \<Rightarrow> Inr ((fst kv, y) # d')))"

text \<open>\<^verbatim>\<open>json.dumps(v)\<close> and \<^verbatim>\<open>json.dumps(v, cls=MongoJSONEncoder)\<close>.\<close>

definition json_dumps :: "env \<Rightarrow> (pyval \<Rightarrow> pyerr + pyval) \<Rightarrow> pyval \<Rightarrow> pyerr + string" where
  "json_dumps E dflt v = (case encode dflt v of Inl e \<Rightarrow> Inl e | Inr j \<Rightarrow> Inr (dumps E j))"

text \<open>
  \<^verbatim>\<open>with open(path, "w") as f: json.dump(v, f, indent=2, ...)\<close>.  The open empties the file
  before the encoder runs and before anything is written, so a write that fails leaves the
  file with a leading part of the new text, possibly none of it, and nothing of the old.
  What an encoder that raises had already streamed into the file is not modelled, the file
  is left empty.
\<close>

definition json_dump_file ::
  "env \<Rightarrow> (pyval \<Rightarrow> pyerr + pyval) \<Rightarrow> string \<Rightarrow> pyval \<Rightarrow> world \<Rightarrow> unit res" where
  "json_dump_file E dflt path v w =
     (case open_w E path w of
        (Inl e, w1) \<Rightarrow> (Inl e, w1)
      | (Inr _, w1) \<Rightarrow>
          (case encode dflt v of
             Inl e \<Rightarrow> (Inl e, w1)
           | Inr j \<Rightarrow> f_write E path (dumps_indent E j) w1))"

section \<open>State store and run logger\<close>

text \<open>\<^verbatim>\<open>load_state\<close> (lines 70-75).  Reading an existing file does not fail in this model.\<close>

definition load_state :: "env \<Rightarrow> world \<Rightarrow> string \<Rightarrow> pyerr + pyval" where
  "load_state E w path =
     (case files w path of
        Some s \<Rightarrow> (case loads E s of Inl m \<Rightarrow> Inl (JSONDecodeError m) | Inr v \<Rightarrow> Inr v)
      | None \<Rightarrow> Inr (PDict [(''lastTimestamp'', PStr [])]))"

text \<open>\<^verbatim>\<open>save_state\<close> (lines 78-81).\<close>

definition save_state :: "env \<Rightarrow> string \<Rightarrow> pyval \<Rightarrow> world \<Rightarrow> unit res" where
  "save_state E path timestamp w =
     json_dump_file E base_default path (PDict [(''lastTimestamp'', timestamp)]) w"

text \<open>
  \<^verbatim>\<open>log_run\<close> (lines 180-183): the file is opened for appending first, which creates it
  when it is missing, then the record is encoded, then the line is written.
\<close>

definition log_run :: "env \<Rightarrow> pyval \<Rightarrow> string \<Rightarrow> world \<Rightarrow> unit res" where
  "log_run E data path w =
     (case open_a E path w of
        (Inl e, w1) \<Rightarrow> (Inl e, w1)
      | (Inr _, w1) \<Rightarrow>
          (case json_dumps E mongo_default data of
             Inl e \<Rightarrow> (Inl e, w1)
           | Inr line \<Rightarrow> f_write E path (line @ [CHR 0x0A]) w1))"

section \<open>Source client\<close>

text \<open>
  What \<^verbatim>\<open>requests.post\<close> hands back: the status code, the body as text, and the message
  \<^verbatim>\<open>raise_for_status\<close> would raise with.
\<close>

record response =
  status_code :: nat
  body_text :: string
  status_error :: string

definition raise_for_status :: "response \<Rightarrow> pyerr + unit" where
  "raise_for_status res =
     (if 400 \<le> status_code res \<and> status_code res < 600
      then Inl (HTTPError (status_error res)) else Inr ())"

text \<open>The normalisation of the response body (lines 116-121).\<close>

definition extract_items :: "pyval \<Rightarrow> pyval" where
  "extract_items response_data =
     (case response_data of
        PList xs \<Rightarrow> PList xs
      | PDict d \<Rightarrow> (case map_of d ''data'' of None \<Rightarrow> PList [] | Some v \<Rightarrow> v)
      | _ \<Rightarrow> PList [])"

text \<open>
  \<^verbatim>\<open>run_actor_and_get_items\<close> (lines 84-126).  The request (actor id, token, actor input)
  is what the service sees; its answer \<open>posted\<close> is a value of the outside world: the
  exception \<^verbatim>\<open>requests.post\<close> raised, or the response.  \<open>now\<close> is the text of
  \<^verbatim>\<open>datetime.now()\<close> for the line of the error log.
\<close>

definition run_actor_and_get_items ::
  "env \<Rightarrow> pyerr + response \<Rightarrow> string \<Rightarrow> world \<Rightarrow> pyval res" where
  "run_actor_and_get_items E posted now w =
     (case posted of
        Inl e \<Rightarrow> (Inl e, w)
      | Inr res \<Rightarrow>
          (case (if status_code res \<noteq> 200
                 then (case open_a E ''error_log.txt'' w of
                         (Inl e, w1) \<Rightarrow> (Inl e, w1)
                       | (Inr _, w1) \<Rightarrow>
                           f_write E ''error_log.txt''
                             (''['' @ now @ ''] API Error: '' @ body_text res @ [CHR 0x0A]) w1)
                 else (Inr (), w)) of
             (Inl e, w1) \<Rightarrow> (Inl e, w1)
           | (Inr _, w1) \<Rightarrow>
               (case raise_for_status res of
                  Inl e \<Rightarrow> (Inl e, w1)
                | Inr _ \<Rightarrow>
                    (case loads E (body_text res) of
                       Inl m \<Rightarrow> (Inl (JSONDecodeError m), w1)
                     | Inr response_data \<Rightarrow> (Inr (extract_items response_data), w1)))))"

section \<open>Source metadata\<close>

definition default_source_metadata :: pyval where
  "default_source_metadata =
     PDict [(''source_type'', PStr ''facebook''), (''post_type'', PStr ''post''),
            (''source_name'', PStr ''Facebook Page''), (''category'', PStr ''Social Media'')]"

fun mapE :: "('a \<Rightarrow> pyerr + 'b) \<Rightarrow> 'a list \<Rightarrow> pyerr + 'b list" where
  "mapE f [] = Inr []"
| "mapE f (x # xs) =
     (case f x of
        Inl e \<Rightarrow> Inl e
      | Inr y \<Rightarrow> (case mapE f xs of Inl e \<Rightarrow> Inl e | Inr ys \<Rightarrow> Inr (y # ys)))"

text \<open>\<^verbatim>\<open>url_obj["url"] if isinstance(url_obj, dict) else url_obj\<close>.\<close>

fun url_of :: "pyval \<Rightarrow> pyerr + pyval" where
  "url_of (PDict d) = py_item (PDict d) ''url''"
| "url_of v = Inr v"

text \<open>\<^verbatim>\<open>sub in v\<close> for a string \<open>sub\<close>.\<close>

fun py_in :: "string \<Rightarrow> pyval \<Rightarrow> pyerr + bool" where
  "py_in sub (PStr s) = Inr (contains sub s)"
| "py_in sub (PList xs) = Inr (PStr sub \<in> set xs)"
| "py_in sub (PDict d) = Inr (sub \<in> fst ` set d)"
| "py_in sub v = Inl (TypeError (''argument of type '' @ quoted (type_name v) @ '' is not iterable''))"

text \<open>
  \<^verbatim>\<open>url.split('facebook.com/')[-1].strip('/')\<close>, then \<^verbatim>\<open>.replace(".", " ").title()\<close>
  (lines 147-148).
\<close>

definition page_name :: "string \<Rightarrow> string" where
  "page_name url =
     py_title (py_replace ''.'' '' '' (py_strip CHR ''/'' (last (py_split ''facebook.com/'' url))))"

text \<open>\<^verbatim>\<open>extract_source_metadata\<close> (lines 129-150).\<close>

definition extract_source_metadata :: "pyval \<Rightarrow> pyerr + pyval \<times> pyval list" where
  "extract_source_metadata config =
     bindE (py_get config ''source_metadata'' default_source_metadata) (\<lambda>default_metadata.
     bindE (py_item config ''inputTemplate'') (\<lambda>template.
     bindE (py_get template ''startUrls'' (PList [])) (\<lambda>url_objs.
     bindE (py_iter url_objs) (\<lambda>objs.
     bindE (mapE url_of objs) (\<lambda>start_urls.
       (case start_urls of
          [] \<Rightarrow> Inr (default_metadata, start_urls)
        | url # _ \<Rightarrow>
            bindE (py_get default_metadata ''source_name'' PNone) (\<lambda>name.
              if truthy name then Inr (default_metadata, start_urls)
              else
                bindE (py_in ''facebook.com'' url) (\<lambda>found.
                  if found then
                    (case url of
                       PStr u \<Rightarrow>
                         (case default_metadata of
                            PDict m \<Rightarrow>
                              Inr (PDict (dict_set ''source_name'' (PStr (page_name u)) m),
                                   start_urls)
                          | _ \<Rightarrow> Inl (no_attribute default_metadata ''get''))
                     | _ \<Rightarrow> Inl (no_attribute url ''split''))
                  else Inr (default_metadata, start_urls)))))))))"

section \<open>Persistence layer\<close>

text \<open>\<^verbatim>\<open>str(v)\<close>.\<close>

fun py_str :: "env \<Rightarrow> pyval \<Rightarrow> string" where
  "py_str E (PStr s) = s"
| "py_str E (PInt i) = str_int i"
| "py_str E PNone = ''None''"
| "py_str E (PBool b) = (if b then ''True'' else ''False'')"
| "py_str E (PObjectId s) = s"
| "py_str E v = py_repr E v"

text \<open>
  Lines 160-161 on one value of an item:
  \<^verbatim>\<open>if isinstance(value, dict) and "_id" in value: value["_id"] = str(value["_id"])\<close>.
\<close>

fun stringify_id :: "env \<Rightarrow> pyval \<Rightarrow> pyval" where
  "stringify_id E (PDict d) =
     (case map_of d ''_id'' of
        Some i \<Rightarrow> PDict (dict_set ''_id'' (PStr (py_str E i)) d)
      | None \<Rightarrow> PDict d)"
| "stringify_id E v = v"

text \<open>
  Lines 159-167 on one item: the item as a document ready for the insert, or the exception
  raised together with the item as it was left.
\<close>

definition stamp :: "env \<Rightarrow> pyval \<Rightarrow> pyval \<Rightarrow> pyerr \<times> pyval + pydict" where
  "stamp E metadata item =
     (case item of
        PDict d \<Rightarrow>
          (let d0 = map (\<lambda>kv. (fst kv, stringify_id E (snd kv))) d in
           case py_get metadata ''source_type'' (PStr ''facebook'') of
             Inl e \<Rightarrow> Inl (e, PDict d0)
           | Inr source_type \<Rightarrow>
           (let d1 = dict_set ''source_type'' source_type d0 in
            case py_get metadata ''post_type'' (PStr ''post'') of
              Inl e \<Rightarrow> Inl (e, PDict d1)
            | Inr post_type \<Rightarrow>
            (let d2 = dict_set ''post_type'' post_type d1;
                 page = (case map_of d2 ''pageNameSource'' of
                           None \<Rightarrow> PStr ''Facebook Page'' | Some v \<Rightarrow> v) in
             case py_get metadata ''source_name'' page of
               Inl e \<Rightarrow> Inl (e, PDict d2)
             | Inr source_name \<Rightarrow>
             (let d3 = dict_set ''source_name'' source_name d2 in
              case py_get metadata ''category'' (PStr ''Social Media'') of
                Inl e \<Rightarrow> Inl (e, PDict d3)
              | Inr category \<Rightarrow> Inr (dict_set ''category'' category d3)))))
      | _ \<Rightarrow> Inl (no_attribute item ''items'', item))"

text \<open>
  pymongo's \<^verbatim>\<open>collection.insert_one(doc)\<close>: a document without \<^verbatim>\<open>_id\<close> gets a fresh
  ObjectId, in place and before anything is sent; then the store takes the document or
  refuses it.
\<close>

definition insert_one :: "env \<Rightarrow> pydict \<Rightarrow> world \<Rightarrow> (pyerr + unit) \<times> pydict \<times> world" where
  "insert_one E doc w =
     (let (doc', w1) =
            (case map_of doc ''_id'' of
               Some _ \<Rightarrow> (doc, w)
             | None \<Rightarrow>
                 (dict_set ''_id'' (PObjectId (new_oid E (oids w))) doc,
                  w\<lparr>oids := Suc (oids w)\<rparr>))
      in case rejects E (docs w1) (PDict doc') of
           Some m \<Rightarrow> (Inl (PyMongoError m), doc', w1)
         | None \<Rightarrow> (Inr (), doc', w1\<lparr>docs := docs w1 @ [PDict doc']\<rparr>))"

text \<open>The body of the loop of \<^verbatim>\<open>save_items_to_db\<close> on one item (lines 157-174).\<close>

definition save_item :: "env \<Rightarrow> pyval \<Rightarrow> pyval \<Rightarrow> world \<Rightarrow> (pyerr + unit) \<times> pyval \<times> world" where
  "save_item E metadata item w =
     (case stamp E metadata item of
        Inl (e, item') \<Rightarrow> (Inl e, item', w)
      | Inr doc \<Rightarrow>
          (case insert_one E doc w of (r, doc', w1) \<Rightarrow> (r, PDict doc', w1)))"

definition warn_line :: "pyerr \<Rightarrow> string" where
  "warn_line e = ''[WARN] Failed to insert item: '' @ str_exc e"

text \<open>
  The loop: the number of successful inserts, the items as the loop leaves them (a dict is
  changed in place, so the caller's list sees the change), the lines printed, the world.
\<close>

fun save_loop :: "env \<Rightarrow> pyval \<Rightarrow> pyval list \<Rightarrow> world \<Rightarrow> nat \<times> pyval list \<times> string list \<times> world" where
  "save_loop E metadata [] w = (0, [], [], w)"
| "save_loop E metadata (item # rest) w =
     (case save_item E metadata item w of
        (Inl e, item', w1) \<Rightarrow>
          (case save_loop E metadata rest w1 of
             (n, items', out, w2) \<Rightarrow> (n, item' # items', warn_line e # out, w2))
      | (Inr _, item', w1) \<Rightarrow>
          (case save_loop E metadata rest w1 of
             (n, items', out, w2) \<Rightarrow> (Suc n, item' # items', out, w2)))"

text \<open>
  \<^verbatim>\<open>save_items_to_db\<close> (lines 153-177).  Only the elements of a list are changed in
  place; the characters of a string and the keys of a dict are strings.
\<close>

definition save_items_to_db ::
  "env \<Rightarrow> pyval \<Rightarrow> pyval \<Rightarrow> world \<Rightarrow> (nat \<times> pyval \<times> string list) res" where
  "save_items_to_db E items metadata w =
     (case py_iter items of
        Inl e \<Rightarrow> (Inl e, w)
      | Inr xs \<Rightarrow>
          (case save_loop E metadata xs w of
             (success_count, xs', out, w1) \<Rightarrow>
               (Inr (success_count,
                     (case items of PList _ \<Rightarrow> PList xs' | _ \<Rightarrow> items),
                     out @ [''[INFO] Successfully inserted '' @ dec success_count @ '' of ''
                            @ dec (length xs) @ '' items into database'']),
                w1)))"

section \<open>Orchestrator\<close>

text \<open>
  What the script keeps of the parsed configuration (lines 221-228).  A \<^verbatim>\<open>stateFile\<close>
  that is not a string is refused here; Python would fail on it at the first
  \<^verbatim>\<open>load_state\<close> (or take an integer as a file descriptor).
\<close>

record settings =
  actor_id :: pyval
  input_template :: pyval
  state_file :: string
  frequency :: pyval
  source_metadata :: pyval
  start_urls :: "pyval list"

definition startup :: "pyval \<Rightarrow> pyerr + settings" where
  "startup config =
     bindE (py_item config ''actorId'') (\<lambda>a.
     bindE (py_item config ''inputTemplate'') (\<lambda>t.
     bindE (py_get config ''stateFile'' (PStr ''state.json'')) (\<lambda>sf.
     bindE (py_get config ''frequency'' (PInt 900)) (\<lambda>fr.
     bindE (extract_source_metadata config) (\<lambda>mu.
       (case sf of
          PStr path \<Rightarrow>
            Inr \<lparr>actor_id = a, input_template = t, state_file = path, frequency = fr,
                 source_metadata = fst mu, start_urls = snd mu\<rparr>
        | _ \<Rightarrow> Inl (TypeError ''stateFile: expected str''))))))) "

text \<open>
  What one cycle reads from the outside: the answer to the request, and the clock each
  time the code looks at it (lines 107, 247, 278, 284, 292, 305).
\<close>

record reading =
  posted :: "pyerr + response"
  errlog_now :: string
  run_id_now :: string
  local_hour :: nat
  local_minute :: nat
  snapshot_now :: string
  log_now :: string
  handler_now :: string

text \<open>\<^verbatim>\<open>v.copy()\<close>: a dict and a list have the method.\<close>

fun py_copy :: "pyval \<Rightarrow> pyerr + pyval" where
  "py_copy (PDict d) = Inr (PDict d)"
| "py_copy (PList xs) = Inr (PList xs)"
| "py_copy v = Inl (no_attribute v ''copy'')"

text \<open>The placeholder substitution (lines 237-242).\<close>

definition substitute :: "env \<Rightarrow> pyval \<Rightarrow> pyval \<Rightarrow> pyerr + pyval" where
  "substitute E template last_ts =
     bindE (py_copy template) (\<lambda>actor_input.
     bindE (json_dumps E base_default actor_input) (\<lambda>actor_input_str.
       if contains ''__LAST_TIMESTAMP__'' actor_input_str then
         bindE (if truthy last_ts
                then (case last_ts of
                        PStr t \<Rightarrow> Inr t
                      | _ \<Rightarrow> Inl (TypeError (''replace() argument 2 must be str, not ''
                                              @ type_name last_ts)))
                else Inr []) (\<lambda>t.
           (case loads E (py_replace ''__LAST_TIMESTAMP__'' t actor_input_str) of
              Inl m \<Rightarrow> Inl (JSONDecodeError m)
            | Inr v \<Rightarrow> Inr v))
       else Inr actor_input))"

text \<open>\<^verbatim>\<open>', '.join(start_urls)\<close> raises on the first element that is not a string.\<close>

fun join_check :: "nat \<Rightarrow> pyval list \<Rightarrow> pyerr + unit" where
  "join_check i [] = Inr ()"
| "join_check i (PStr s # xs) = join_check (Suc i) xs"
| "join_check i (v # xs) =
     Inl (TypeError (''sequence item '' @ dec i @ '': expected str instance, ''
                     @ type_name v @ '' found''))"

text \<open>
  Lines 233-244, the part of a cycle that runs before the \<^verbatim>\<open>try\<close>: the last timestamp
  and the actor input, or the exception that ends the process.
\<close>

definition prelude :: "env \<Rightarrow> settings \<Rightarrow> world \<Rightarrow> pyerr + pyval \<times> pyval" where
  "prelude E su w =
     bindE (load_state E w (state_file su)) (\<lambda>state.
     bindE (py_get state ''lastTimestamp'' (PStr [])) (\<lambda>last_ts.
     bindE (substitute E (input_template su) last_ts) (\<lambda>actor_input.
     bindE (join_check 0 (start_urls su)) (\<lambda>_.
       Inr (last_ts, actor_input)))))"

text \<open>
  Lines 246-271: fetch, persist, checkpoint.  The result is the items as they stand, their
  number and \<^verbatim>\<open>latest_ts\<close>.  \<^verbatim>\<open>display_metadata_summary\<close> only prints, and by then
  \<^verbatim>\<open>source_metadata.get\<close> has succeeded once (line 250), so it cannot raise.
\<close>

definition fetch_persist_checkpoint ::
  "env \<Rightarrow> settings \<Rightarrow> reading \<Rightarrow> world \<Rightarrow> (pyval \<times> nat \<times> pyval) res" where
  "fetch_persist_checkpoint E su rd w =
     (case run_actor_and_get_items E (posted rd) (errlog_now rd) w of
        (Inl e, w1) \<Rightarrow> (Inl e, w1)
      | (Inr items, w1) \<Rightarrow>
          (case py_len items of
             Inl e \<Rightarrow> (Inl e, w1)
           | Inr n \<Rightarrow>
               (case py_get (source_metadata su) ''source_name'' PNone of
                  Inl e \<Rightarrow> (Inl e, w1)
                | Inr _ \<Rightarrow>
                    if truthy items then
                      (case save_items_to_db E items (source_metadata su) w1 of
                         (Inl e, w2) \<Rightarrow> (Inl e, w2)
                       | (Inr (success_count, items', out), w2) \<Rightarrow>
                           (case bindE (py_first items') (\<lambda>x. py_get x ''timestamp'' PNone) of
                              Inl e \<Rightarrow> (Inl e, w2)
                            | Inr latest_ts \<Rightarrow>
                                if truthy latest_ts then
                                  (case save_state E (state_file su) latest_ts w2 of
                                     (Inl e, w3) \<Rightarrow> (Inl e, w3)
                                   | (Inr _, w3) \<Rightarrow> (Inr (items', n, latest_ts), w3))
                                else (Inr (items', n, latest_ts), w2)))
                    else (Inr (items, n, PNone), w1))))"

text \<open>\<^verbatim>\<open>datetime.now().strftime("%I-%M%p").lower()\<close> for a local time of day.\<close>

definition runtime_str :: "nat \<Rightarrow> nat \<Rightarrow> string" where
  "runtime_str h m =
     two_digits (if h mod 12 = 0 then 12 else h mod 12) @ ''-'' @ two_digits m
     @ (if h < 12 then ''am'' else ''pm'')"

definition response_filename :: "reading \<Rightarrow> string" where
  "response_filename rd =
     ''data/apify_response_'' @ runtime_str (local_hour rd) (local_minute rd) @ ''.json''"

definition success_entry :: "reading \<Rightarrow> nat \<Rightarrow> pyval \<Rightarrow> pyval" where
  "success_entry rd n latest_ts =
     PDict [(''runAt'', PStr (log_now rd @ ''Z'')), (''runId'', PStr (run_id_now rd)),
            (''status'', PStr ''SUCCEEDED''), (''itemCount'', PInt (int n)),
            (''latestTimestamp'', latest_ts), (''error'', PNone)]"

definition error_entry :: "reading \<Rightarrow> pyerr \<Rightarrow> pyval" where
  "error_entry rd e =
     PDict [(''runAt'', PStr (handler_now rd @ ''Z'')), (''runId'', PNone),
            (''status'', PStr ''ERROR''), (''itemCount'', PInt 0),
            (''latestTimestamp'', PNone), (''error'', PStr (str_exc e))]"

text \<open>Lines 277-299: the snapshot file and the Run Record of a cycle that did not raise.\<close>

definition snapshot_and_log :: "env \<Rightarrow> reading \<Rightarrow> pyval \<times> nat \<times> pyval \<Rightarrow> world \<Rightarrow> unit res" where
  "snapshot_and_log E rd r w =
     (case r of (items, n, latest_ts) \<Rightarrow>
        (case json_dump_file E mongo_default (response_filename rd)
                (PDict [(''runAt'', PStr (snapshot_now rd @ ''Z'')), (''data'', items)]) w of
           (Inl e, w1) \<Rightarrow> (Inl e, w1)
         | (Inr _, w1) \<Rightarrow> log_run E (success_entry rd n latest_ts) ''log.jsonl'' w1))"

text \<open>The body of the \<^verbatim>\<open>try\<close> (lines 246-299).\<close>

definition try_body :: "env \<Rightarrow> settings \<Rightarrow> reading \<Rightarrow> world \<Rightarrow> unit res" where
  "try_body E su rd w =
     (case fetch_persist_checkpoint E su rd w of
        (Inl e, w1) \<Rightarrow> (Inl e, w1)
      | (Inr r, w1) \<Rightarrow> snapshot_and_log E rd r w1)"

text \<open>\<^verbatim>\<open>time.sleep(frequency)\<close> (line 314) returns for a number that is not negative.\<close>

fun py_sleep :: "pyval \<Rightarrow> pyerr + unit" where
  "py_sleep (PInt i) =
     (if i < 0 then Inl (ValueError ''sleep length must be non-negative'') else Inr ())"
| "py_sleep (PBool b) = Inr ()"
| "py_sleep v =
     Inl (TypeError (quoted (type_name v) @ '' object cannot be interpreted as an integer''))"

text \<open>
  One turn of \<^verbatim>\<open>while True\<close> (lines 232-314).  An exception raised before the
  \<^verbatim>\<open>try\<close>, inside the handler or by the sleep leaves the loop: the process ends.
\<close>

datatype outcome = Crashed pyerr world | Slept world

definition cycle :: "env \<Rightarrow> settings \<Rightarrow> reading \<Rightarrow> world \<Rightarrow> outcome" where
  "cycle E su rd w =
     (case prelude E su w of
        Inl e \<Rightarrow> Crashed e w
      | Inr _ \<Rightarrow>
          (case (case try_body E su rd w of
                   (Inl e, w1) \<Rightarrow> log_run E (error_entry rd e) ''log.jsonl'' w1
                 | (Inr _, w1) \<Rightarrow> (Inr (), w1)) of
             (Inl e, w2) \<Rightarrow> Crashed e w2
           | (Inr _, w2) \<Rightarrow>
               (case py_sleep (frequency su) of
                  Inl e \<Rightarrow> Crashed e w2
                | Inr _ \<Rightarrow> Slept w2)))"

fun world_of :: "outcome \<Rightarrow> world" where
  "world_of (Crashed e w) = w"
| "world_of (Slept w) = w"

text \<open>The loop on the readings of its first cycles: it goes on until a cycle ends the process.\<close>

fun run :: "env \<Rightarrow> settings \<Rightarrow> reading list \<Rightarrow> world \<Rightarrow> outcome" where
  "run E su [] w = Slept w"
| "run E su (rd # rds) w =
     (case cycle E su rd w of
        Crashed e w1 \<Rightarrow> Crashed e w1
      | Slept w1 \<Rightarrow> run E su rds w1)"

section \<open>A concrete outside world\<close>

text \<open>
  For the closed examples: the text \<^verbatim>\<open>json.dumps\<close> renders (separators \<^verbatim>\<open>", "\<close> and
  \<^verbatim>\<open>": "\<close>, or one entry per line with \<^verbatim>\<open>indent=2\<close>) for values whose strings need no
  escape other than of the quote and the backslash.
\<close>

fun escape :: "string \<Rightarrow> string" where
  "escape [] = []"
| "escape (c # cs) =
     (if c = CHR 0x22 \<or> c = CHR 0x5C then CHR 0x5C # c # escape cs else c # escape cs)"

definition json_string :: "string \<Rightarrow> string" where
  "json_string s = CHR 0x22 # escape s @ [CHR 0x22]"

fun json_text :: "pyval \<Rightarrow> string"
  and json_text_list :: "pyval list \<Rightarrow> string"
  and json_text_items :: "pydict \<Rightarrow> string" where
  "json_text PNone = ''null''"
| "json_text (PBool b) = (if b then ''true'' else ''false'')"
| "json_text (PInt i) = str_int i"
| "json_text (PStr s) = json_string s"
| "json_text (PList xs) = ''['' @ json_text_list xs @ '']''"
| "json_text (PDict d) = ''{'' @ json_text_items d @ ''}''"
| "json_text (PObjectId s) = []"
| "json_text (PObject n) = []"
| "json_text_list [] = []"
| "json_text_list (x # xs) =
     json_text x @ (if xs = [] then [] else '', '' @ json_text_list xs)"
| "json_text_items [] = []"
| "json_text_items (kv # d) =
     json_string (fst kv) @ '': '' @ json_text (snd kv)
     @ (if d = [] then [] else '', '' @ json_text_items d)"

definition newline_indent :: "nat \<Rightarrow> string" where
  "newline_indent k = CHR 0x0A # replicate (2 * k) CHR '' ''"

fun json_indent :: "nat \<Rightarrow> pyval \<Rightarrow> string"
  and json_indent_list :: "nat \<Rightarrow> pyval list \<Rightarrow> string"
  and json_indent_items :: "nat \<Rightarrow> pydict \<Rightarrow> string" where
  "json_indent k PNone = ''null''"
| "json_indent k (PBool b) = (if b then ''true'' else ''false'')"
| "json_indent k (PInt i) = str_int i"
| "json_indent k (PStr s) = json_string s"
| "json_indent k (PList xs) =
     (if xs = [] then ''[]''
      else ''['' @ newline_indent (Suc k) @ json_indent_list (Suc k) xs @ newline_indent k @ '']'')"
| "json_indent k (PDict d) =
     (if d = [] then ''{}''
      else ''{'' @ newline_indent (Suc k) @ json_indent_items (Suc k) d @ newline_indent k @ ''}'')"
| "json_indent k (PObjectId s) = []"
| "json_indent k (PObject n) = []"
| "json_indent_list k [] = []"
| "json_indent_list k (x # xs) =
     json_indent k x @ (if xs = [] then [] else '','' @ newline_indent k @ json_indent_list k xs)"
| "json_indent_items k [] = []"
| "json_indent_items k (kv # d) =
     json_string (fst kv) @ '': '' @ json_indent k (snd kv)
     @ (if d = [] then [] else '','' @ newline_indent k @ json_indent_items k d)"

text \<open>
  The parser of the examples knows the texts of a table, and refuses any other text with
  the message \<^verbatim>\<open>json.loads\<close> has for a text at whose start no JSON value can be read
  (the examples use it on such texts only).  Generated ObjectIds are \<^verbatim>\<open>oid0\<close>,
  \<^verbatim>\<open>oid1\<close>, ...
\<close>

definition table_loads :: "(string \<times> pyval) list \<Rightarrow> string \<Rightarrow> string + pyval" where
  "table_loads table s =
     (case map_of table s of
        Some v \<Rightarrow> Inr v
      | None \<Rightarrow> Inl ''Expecting value: line 1 column 1 (char 0)'')"

definition demo_env ::
  "(string \<times> pyval) list \<Rightarrow> (string \<Rightarrow> write_fault option) \<Rightarrow>
   (pyval list \<Rightarrow> pyval \<Rightarrow> string option) \<Rightarrow> env" where
  "demo_env table werr rej =
     \<lparr>dumps = json_text, dumps_indent = json_indent 0, loads = table_loads table,
      py_repr = json_text, write_error = werr, rejects = rej,
      new_oid = (\<lambda>n. ''oid'' @ dec n)\<rparr>"

text \<open>
  A store with a unique index on \<^verbatim>\<open>url\<close> (\<^verbatim>\<open>create_indices\<close>, \<^verbatim>\<open>src/db.py\<close> line 29)
  refuses a document whose \<^verbatim>\<open>url\<close> a stored document already has; a missing field counts
  as null.
\<close>

definition field_or_null :: "pyval \<Rightarrow> string \<Rightarrow> pyval" where
  "field_or_null doc k =
     (case doc of PDict d \<Rightarrow> (case map_of d k of None \<Rightarrow> PNone | Some v \<Rightarrow> v) | _ \<Rightarrow> PNone)"

definition unique_url :: "pyval list \<Rightarrow> pyval \<Rightarrow> string option" where
  "unique_url stored doc =
     (if field_or_null doc ''url'' \<in> (\<lambda>d. field_or_null d ''url'') ` set stored
      then Some ''E11000 duplicate key error collection: web_listener.articles index: url_1''
      else None)"

definition accept_all :: "pyval list \<Rightarrow> pyval \<Rightarrow> string option" where
  "accept_all stored doc = None"

definition writable :: "string \<Rightarrow> write_fault option" where
  "writable path = None"

definition empty_world :: world where
  "empty_world = \<lparr>files = Map.empty, docs = [], oids = 0\<rparr>"

section \<open>Vocabulary of the properties\<close>

text \<open>\<open>native v\<close>: the value is made of JSON types only, as a parsed document is.\<close>

fun native :: "pyval \<Rightarrow> bool"
  and native_list :: "pyval list \<Rightarrow> bool"
  and native_items :: "pydict \<Rightarrow> bool" where
  "native PNone = True"
| "native (PBool b) = True"
| "native (PInt i) = True"
| "native (PStr s) = True"
| "native (PList xs) = native_list xs"
| "native (PDict d) = native_items d"
| "native (PObjectId s) = False"
| "native (PObject n) = False"
| "native_list [] = True"
| "native_list (x # xs) = (native x \<and> native_list xs)"
| "native_items [] = True"
| "native_items (kv # d) = (native (snd kv) \<and> native_items d)"

text \<open>
  \<open>bson_only v\<close>: the only values of \<open>v\<close> that are not of a JSON type are ObjectIds;
  \<open>ids_as_text v\<close> is \<open>v\<close> with every ObjectId replaced by its text.
\<close>

fun bson_only :: "pyval \<Rightarrow> bool"
  and bson_only_list :: "pyval list \<Rightarrow> bool"
  and bson_only_items :: "pydict \<Rightarrow> bool" where
  "bson_only (PList xs) = bson_only_list xs"
| "bson_only (PDict d) = bson_only_items d"
| "bson_only (PObject n) = False"
| "bson_only v = True"
| "bson_only_list [] = True"
| "bson_only_list (x # xs) = (bson_only x \<and> bson_only_list xs)"
| "bson_only_items [] = True"
| "bson_only_items (kv # d) = (bson_only (snd kv) \<and> bson_only_items d)"

fun ids_as_text :: "pyval \<Rightarrow> pyval"
  and ids_as_text_list :: "pyval list \<Rightarrow> pyval list"
  and ids_as_text_items :: "pydict \<Rightarrow> pydict" where
  "ids_as_text (PList xs) = PList (ids_as_text_list xs)"
| "ids_as_text (PDict d) = PDict (ids_as_text_items d)"
| "ids_as_text (PObjectId s) = PStr s"
| "ids_as_text v = v"
| "ids_as_text_list [] = []"
| "ids_as_text_list (x # xs) = ids_as_text x # ids_as_text_list xs"
| "ids_as_text_items [] = []"
| "ids_as_text_items (kv # d) = (fst kv, ids_as_text (snd kv)) # ids_as_text_items d"

text \<open>
  \<open>first_other v\<close>: the class of the first object of \<open>v\<close>, in the order the encoder
  walks it, that is neither of a JSON type nor an ObjectId.
\<close>

fun first_other :: "pyval \<Rightarrow> string option"
  and first_other_list :: "pyval list \<Rightarrow> string option"
  and first_other_items :: "pydict \<Rightarrow> string option" where
  "first_other (PList xs) = first_other_list xs"
| "first_other (PDict d) = first_other_items d"
| "first_other (PObject n) = Some n"
| "first_other v = None"
| "first_other_list [] = None"
| "first_other_list (x # xs) =
     (case first_other x of Some n \<Rightarrow> Some n | None \<Rightarrow> first_other_list xs)"
| "first_other_items [] = None"
| "first_other_items (kv # d) =
     (case first_other (snd kv) of Some n \<Rightarrow> Some n | None \<Rightarrow> first_other_items d)"


text \<open>The content of a file, empty when the file is missing.\<close>

definition content :: "world \<Rightarrow> string \<Rightarrow> string" where
  "content w path = (case files w path of None \<Rightarrow> [] | Some old \<Rightarrow> old)"

section \<open>Example inputs\<close>

text \<open>The configuration of the scenario of the specification, and what the script keeps of it.\<close>

definition acme_config :: pyval where
  "acme_config =
     PDict [(''actorId'', PStr ''X''),
            (''inputTemplate'',
             PDict [(''startUrls'', PList [PDict [(''url'', PStr ''https://facebook.com/Acme'')]])]),
            (''frequency'', PInt 1)]"

definition acme_settings :: settings where
  "acme_settings =
     \<lparr>actor_id = PStr ''X'',
      input_template =
        PDict [(''startUrls'', PList [PDict [(''url'', PStr ''https://facebook.com/Acme'')]])],
      state_file = ''state.json'', frequency = PInt 1,
      source_metadata = default_source_metadata,
      start_urls = [PStr ''https://facebook.com/Acme'']\<rparr>"

definition reading_at :: "pyerr + response \<Rightarrow> reading" where
  "reading_at p =
     \<lparr>posted = p, errlog_now = ''2024-01-01 15:07:00'', run_id_now = ''20240101150700'',
      local_hour = 15, local_minute = 7, snapshot_now = ''2024-01-01T15:07:01+00:00'',
      log_now = ''2024-01-01T15:07:02+00:00'', handler_now = ''2024-01-01T15:07:03+00:00''\<rparr>"

definition ok_response :: "string \<Rightarrow> pyerr + response" where
  "ok_response b = Inr \<lparr>status_code = 200, body_text = b, status_error = []\<rparr>"

definition with_file :: "string \<Rightarrow> string \<Rightarrow> world \<Rightarrow> world" where
  "with_file path s w = w\<lparr>files := (files w)(path \<mapsto> s)\<rparr>"

text \<open>The four metadata fields \<^verbatim>\<open>save_items_to_db\<close> writes into every item.\<close>

definition four_stamped :: "string set" where
  "four_stamped = {''source_type'', ''post_type'', ''source_name'', ''category''}"

text \<open>What lines 159-167 make of an item \<open>d\<close> under a metadata mapping \<open>m\<close>.\<close>

definition stamped_doc :: "env \<Rightarrow> pydict \<Rightarrow> pydict \<Rightarrow> pydict" where
  "stamped_doc E m d =
     dict_set ''category'' (case map_of m ''category'' of None \<Rightarrow> PStr ''Social Media'' | Some v \<Rightarrow> v)
      (dict_set ''source_name''
         (case map_of m ''source_name'' of
            None \<Rightarrow> (case map_option (stringify_id E) (map_of d ''pageNameSource'') of
                       None \<Rightarrow> PStr ''Facebook Page'' | Some v \<Rightarrow> v)
          | Some v \<Rightarrow> v)
      (dict_set ''post_type'' (case map_of m ''post_type'' of None \<Rightarrow> PStr ''post'' | Some v \<Rightarrow> v)
      (dict_set ''source_type'' (case map_of m ''source_type'' of None \<Rightarrow> PStr ''facebook'' | Some v \<Rightarrow> v)
         (map (\<lambda>kv. (fst kv, stringify_id E (snd kv))) d))))"

text \<open>A document as \<^verbatim>\<open>insert_one\<close> leaves it when \<open>oid\<close> is the next ObjectId.\<close>

definition with_id :: "pyval \<Rightarrow> pydict \<Rightarrow> pydict" where
  "with_id oid doc = (case map_of doc ''_id'' of Some _ \<Rightarrow> doc | None \<Rightarrow> dict_set ''_id'' oid doc)"

text \<open>Items and metadata of the examples.\<close>

definition tagged_item :: pyval where
  "tagged_item = PDict [(''text'', PStr ''hi''), (''pageNameSource'', PStr ''Acme Corp'')]"

definition partial_metadata :: pyval where
  "partial_metadata = PDict [(''source_type'', PStr ''instagram'')]"

definition nested_item :: pyval where
  "nested_item =
     PDict [(''text'', PStr ''hi''),
            (''author'', PDict [(''_id'', PInt 42), (''name'', PStr ''Ann'')])]"

text \<open>
  The fetch of the scenario: the service answers \<^verbatim>\<open>[hi]\<close>, which parses to one item; the
  document, the snapshot and the Run Record the cycle makes of it.
\<close>

definition hi_item :: pyval where
  "hi_item = PDict [(''timestamp'', PStr ''2024-01-01T00:00:00Z''), (''text'', PStr ''hi'')]"

definition hi_env :: "(pyval list \<Rightarrow> pyval \<Rightarrow> string option) \<Rightarrow> env" where
  "hi_env rej = demo_env [(''[hi]'', PList [hi_item])] writable rej"

definition hi_stored :: pyval where
  "hi_stored =
     PDict [(''timestamp'', PStr ''2024-01-01T00:00:00Z''), (''text'', PStr ''hi''),
            (''source_type'', PStr ''facebook''), (''post_type'', PStr ''post''),
            (''source_name'', PStr ''Facebook Page''), (''category'', PStr ''Social Media''),
            (''_id'', PObjectId ''oid0'')]"

definition hi_snapshot :: pyval where
  "hi_snapshot =
     PDict [(''runAt'', PStr ''2024-01-01T15:07:01+00:00Z''),
            (''data'',
             PList [PDict [(''timestamp'', PStr ''2024-01-01T00:00:00Z''), (''text'', PStr ''hi''),
                           (''source_type'', PStr ''facebook''), (''post_type'', PStr ''post''),
                           (''source_name'', PStr ''Facebook Page''),
                           (''category'', PStr ''Social Media''), (''_id'', PStr ''oid0'')]])]"

definition hi_record :: pyval where
  "hi_record =
     PDict [(''runAt'', PStr ''2024-01-01T15:07:02+00:00Z''), (''runId'', PStr ''20240101150700''),
            (''status'', PStr ''SUCCEEDED''), (''itemCount'', PInt 1),
            (''latestTimestamp'', PStr ''2024-01-01T00:00:00Z''), (''error'', PNone)]"

text \<open>A collection that already holds a document without \<^verbatim>\<open>url\<close>, and no checkpoint file.\<close>

definition stale_world :: world where
  "stale_world = \<lparr>files = Map.empty, docs = [PDict [(''text'', PStr ''old'')]], oids = 0\<rparr>"



text \<open>
  A fetch that returns the envelope \<^verbatim>\<open>{"data": []}\<close> while a checkpoint exists (the texts
  of the two files are abbreviated).
\<close>

definition envelope_env :: env where
  "envelope_env =
     demo_env [(''{data:[]}'', PDict [(''data'', PList [])]),
               (''{checkpoint}'', PDict [(''lastTimestamp'', PStr ''2023-12-31T00:00:00Z'')])]
       writable accept_all"

definition envelope_world :: world where
  "envelope_world = with_file ''state.json'' ''{checkpoint}'' empty_world"

definition envelope_record :: pyval where
  "envelope_record =
     PDict [(''runAt'', PStr ''2024-01-01T15:07:02+00:00Z''), (''runId'', PStr ''20240101150700''),
            (''status'', PStr ''SUCCEEDED''), (''itemCount'', PInt 0),
            (''latestTimestamp'', PNone), (''error'', PNone)]"







text \<open>
  A disk that fills up while the checkpoint is written: the file is opened, and the write
  fails before any character has reached it.  The environment, the Run Record of the cycle
  and the world it leaves when it starts with a checkpoint and a fetch of one item.
\<close>

definition full_disk :: "string \<Rightarrow> write_fault option" where
  "full_disk path =
     (if path = ''state.json'' then Some (AtWrite ''[Errno 28] No space left on device'' 0)
      else None)"

definition full_disk_env :: env where
  "full_disk_env =
     demo_env [(''[hi]'', PList [hi_item]),
               (''{checkpoint}'', PDict [(''lastTimestamp'', PStr ''2023-12-31T00:00:00Z'')])]
       full_disk accept_all"

definition full_disk_record :: pyval where
  "full_disk_record =
     PDict [(''runAt'', PStr ''2024-01-01T15:07:03+00:00Z''), (''runId'', PNone),
            (''status'', PStr ''ERROR''), (''itemCount'', PInt 0),
            (''latestTimestamp'', PNone),
            (''error'', PStr ''[Errno 28] No space left on device'')]"

definition full_disk_world :: world where
  "full_disk_world =
     \<lparr>files = [''state.json'' \<mapsto> [],
               ''log.jsonl'' \<mapsto> json_text full_disk_record @ [CHR 0x0A]],
      docs = [hi_stored], oids = 1\<rparr>"

text \<open>
  Two worlds with the same files and the same number of generated ObjectIds: they differ at
  most in what the collection holds.
\<close>

definition same_but_docs :: "world \<Rightarrow> world \<Rightarrow> bool" where
  "same_but_docs w v = (files w = files v \<and> oids w = oids v)"

text \<open>
  Two outcomes are alike: both ended the process on the same exception or both slept, in
  worlds that differ at most in what the collection holds.
\<close>

fun alike :: "outcome \<Rightarrow> outcome \<Rightarrow> bool" where
  "alike (Crashed e w) (Crashed e' v) = (e = e' \<and> same_but_docs w v)"
| "alike (Slept w) (Slept v) = same_but_docs w v"
| "alike _ _ = False"

text \<open>An item with a \<^verbatim>\<open>url\<close>, and the document the loop makes of it as the second of a batch.\<close>

definition linked_item :: pyval where
  "linked_item = PDict [(''url'', PStr ''https://facebook.com/Acme/posts/1'')]"

definition linked_stored :: pyval where
  "linked_stored =
     PDict [(''url'', PStr ''https://facebook.com/Acme/posts/1''),
            (''source_type'', PStr ''facebook''), (''post_type'', PStr ''post''),
            (''source_name'', PStr ''Facebook Page''), (''category'', PStr ''Social Media''),
            (''_id'', PObjectId ''oid1'')]"

section \<open>Properties\<close>

subsection \<open>Encoding\<close>

lemma encode_native:
  "native v \<Longrightarrow> encode dflt v = Inr v"
  "native_list xs \<Longrightarrow> encode_list dflt xs = Inr xs"
  "native_items d \<Longrightarrow> encode_items dflt d = Inr d"
  by (induction v and xs and d rule: native_native_list_native_items.induct) auto

lemma encode_bson_only:
  "bson_only v \<Longrightarrow> encode mongo_default v = Inr (ids_as_text v)"
  "bson_only_list xs \<Longrightarrow> encode_list mongo_default xs = Inr (ids_as_text_list xs)"
  "bson_only_items d \<Longrightarrow> encode_items mongo_default d = Inr (ids_as_text_items d)"
  by (induction v and xs and d rule: bson_only_bson_only_list_bson_only_items.induct)
     (auto simp: mongo_default_def)



lemma first_other_none:
  "(first_other v = None) = bson_only v"
  "(first_other_list xs = None) = bson_only_list xs"
  "(first_other_items d = None) = bson_only_items d"
  by (induction v and xs and d rule: first_other_first_other_list_first_other_items.induct)
     (auto split: option.splits)

lemma encode_first_other:
  "first_other v = Some n \<Longrightarrow>
     encode mongo_default v
       = Inl (TypeError (''Object of type '' @ n @ '' is not JSON serializable''))"
  "first_other_list xs = Some n \<Longrightarrow>
     encode_list mongo_default xs
       = Inl (TypeError (''Object of type '' @ n @ '' is not JSON serializable''))"
  "first_other_items d = Some n \<Longrightarrow>
     encode_items mongo_default d
       = Inl (TypeError (''Object of type '' @ n @ '' is not JSON serializable''))"
  by (induction v and xs and d rule: first_other_first_other_list_first_other_items.induct)
     (auto simp: mongo_default_def base_default_def first_other_none encode_bson_only
           split: option.splits)

subsection \<open>Files\<close>

lemma log_run_appends:
  assumes "bson_only data" and "write_error E path = None"
  shows "log_run E data path w =
    (Inr (), w\<lparr>files := (files w)(path \<mapsto> content w path @ dumps E (ids_as_text data) @ [CHR 0x0A])\<rparr>)"
  using assms
  by (auto simp: log_run_def open_a_def f_write_def put_text_def json_dumps_def encode_bson_only
      content_def split: option.splits)

lemma log_run_frame:
  "log_run E data path w = (r, w') \<Longrightarrow>
     docs w' = docs w \<and> oids w' = oids w \<and> (\<forall>p. p \<noteq> path \<longrightarrow> files w' p = files w p)"
  by (auto simp: log_run_def open_a_def f_write_def put_text_def
      split: option.splits sum.splits write_fault.splits)

lemma json_dump_file_frame:
  "json_dump_file E dflt path v w = (r, w') \<Longrightarrow>
     docs w' = docs w \<and> oids w' = oids w \<and> (\<forall>p. p \<noteq> path \<longrightarrow> files w' p = files w p)"
  by (auto simp: json_dump_file_def open_w_def f_write_def put_text_def
      split: option.splits sum.splits write_fault.splits)

lemma json_dump_file_cases:
  assumes "encode dflt v = Inr j" and "json_dump_file E dflt path v w = (r, w')"
  shows "(\<exists>m. write_error E path = Some (AtOpen m) \<and> r = Inl (OSError m) \<and> w' = w)
       \<or> (\<exists>m k. write_error E path = Some (AtWrite m k) \<and> r = Inl (OSError m)
              \<and> w' = w\<lparr>files := (files w)(path \<mapsto> take k (dumps_indent E j))\<rparr>)
       \<or> (write_error E path = None \<and> r = Inr ()
          \<and> w' = w\<lparr>files := (files w)(path \<mapsto> dumps_indent E j)\<rparr>)"
  using assms
  by (auto simp: json_dump_file_def open_w_def f_write_def put_text_def
      split: option.splits write_fault.splits)

lemma json_dump_file_ok:
  "write_error E path = None \<Longrightarrow> bson_only v \<Longrightarrow>
   json_dump_file E mongo_default path v w =
     (Inr (), w\<lparr>files := (files w)(path \<mapsto> dumps_indent E (ids_as_text v))\<rparr>)"
  by (auto simp: json_dump_file_def open_w_def f_write_def put_text_def encode_bson_only)

lemma save_state_ok:
  "write_error E path = None \<Longrightarrow> native ts \<Longrightarrow>
   save_state E path ts w =
     (Inr (), w\<lparr>files := (files w)(path \<mapsto> dumps_indent E (PDict [(''lastTimestamp'', ts)]))\<rparr>)"
  by (auto simp: save_state_def json_dump_file_def open_w_def f_write_def put_text_def
      encode_native)

subsection \<open>Run logger\<close>

lemma log_run_refuses:
  assumes "first_other data = Some n" and "write_error E path = None"
  shows "log_run E data path w =
    (Inl (TypeError (''Object of type '' @ n @ '' is not JSON serializable'')),
     w\<lparr>files := (files w)(path \<mapsto> content w path)\<rparr>)"
  using assms
  by (auto simp: log_run_def open_a_def json_dumps_def encode_first_other content_def
      split: option.splits)

text \<open>
  C9, as amended.  Provided the log can be written: \<^verbatim>\<open>log_run\<close> serialises and appends a
  record whose only values that are not of a JSON type are ObjectIds, each written as its
  text, and the line goes at the end of the log.  The fallback covers ObjectIds only:
  \<^verbatim>\<open>MongoJSONEncoder.default\<close> hands any other object to the base class, so a record that
  holds one makes \<^verbatim>\<open>log_run\<close> raise the TypeError of the first such object, and no line
  is appended (the log, which the open has created if it was missing, keeps its content).
\<close>

theorem log_run_encodes_object_ids:
  assumes "write_error E path = None"
  shows "log_run E data path w =
    (case first_other data of
       None \<Rightarrow>
         (Inr (),
          w\<lparr>files := (files w)(path \<mapsto>
                content w path @ dumps E (ids_as_text data) @ [CHR 0x0A])\<rparr>)
     | Some n \<Rightarrow>
         (Inl (TypeError (''Object of type '' @ n @ '' is not JSON serializable'')),
          w\<lparr>files := (files w)(path \<mapsto> content w path)\<rparr>))"
proof (cases "first_other data")
  case None
  then have "bson_only data" by (simp add: first_other_none)
  from log_run_appends [OF this assms] None show ?thesis by simp
next
  case (Some n)
  from log_run_refuses [OF Some assms] Some show ?thesis by simp
qed

theorem log_run_encodes_object_ids_witness:
  "write_error (demo_env [] writable accept_all) ''log.jsonl'' = None
   \<and> log_run (demo_env [] writable accept_all)
        (PDict [(''status'', PStr ''SUCCEEDED''), (''_id'', PObjectId ''65a1b2c3'')])
        ''log.jsonl'' empty_world
      = (Inr (), with_file ''log.jsonl''
           (json_text (PDict [(''status'', PStr ''SUCCEEDED''), (''_id'', PStr ''65a1b2c3'')])
            @ [CHR 0x0A]) empty_world)
   \<and> log_run (demo_env [] writable accept_all)
        (PDict [(''tags'', PList [PStr ''a'', PObject ''set'']), (''at'', PObject ''datetime'')])
        ''log.jsonl'' empty_world
      = (Inl (TypeError ''Object of type set is not JSON serializable''),
         with_file ''log.jsonl'' [] empty_world)"
proof -
  have w: "write_error (demo_env [] writable accept_all) ''log.jsonl'' = None"
    by (simp add: demo_env_def writable_def)
  from log_run_encodes_object_ids [OF w, of "PDict [(''status'', PStr ''SUCCEEDED''), (''_id'', PObjectId ''65a1b2c3'')]"
        empty_world]
    log_run_encodes_object_ids [OF w, of "PDict [(''tags'', PList [PStr ''a'', PObject ''set'']), (''at'', PObject ''datetime'')]"
        empty_world]
    w
  show ?thesis
    by (simp add: demo_env_def with_file_def content_def empty_world_def)
qed

text \<open>
  C9 as stated fails for a value that is neither of a JSON type nor an ObjectId: a record
  holding a \<^verbatim>\<open>datetime\<close> raises TypeError and nothing is appended.
\<close>

theorem log_run_other_object_counterexample:
  "log_run (demo_env [] writable accept_all)
     (PDict [(''status'', PStr ''SUCCEEDED''), (''at'', PObject ''datetime'')])
     ''log.jsonl'' (with_file ''log.jsonl'' ''earlier'' empty_world)
   = (Inl (TypeError ''Object of type datetime is not JSON serializable''),
      with_file ''log.jsonl'' ''earlier'' empty_world)"
  by (simp add: log_run_def open_a_def demo_env_def writable_def json_dumps_def
      mongo_default_def base_default_def empty_world_def with_file_def)

subsection \<open>State store\<close>

lemma prelude_bad_state:
  "files w (state_file su) = Some s \<Longrightarrow> loads E s = Inl m \<Longrightarrow>
   prelude E su w = Inl (JSONDecodeError m)"
  by (simp add: prelude_def load_state_def bindE_def)

text \<open>
  C10.  \<^verbatim>\<open>load_state\<close> takes the zero-value checkpoint from its missing-file branch
  alone: a file that exists yields what it parses to, or raises when it is not valid JSON.
  The call stands before the \<^verbatim>\<open>try\<close>, so that failure ends the process: the cycle
  leaves the world as it was (no Run Record is appended) and no later cycle runs.
\<close>

theorem load_state_zero_value_only_when_absent:
  "(files w path = None \<longrightarrow> load_state E w path = Inr (PDict [(''lastTimestamp'', PStr [])]))
   \<and> (\<forall>s. files w path = Some s \<longrightarrow>
          load_state E w path
            = (case loads E s of Inl m \<Rightarrow> Inl (JSONDecodeError m) | Inr v \<Rightarrow> Inr v))
   \<and> (\<forall>s m. files w (state_file su) = Some s \<and> loads E s = Inl m \<longrightarrow>
          cycle E su rd w = Crashed (JSONDecodeError m) w
          \<and> run E su (rd # rds) w = Crashed (JSONDecodeError m) w)"
  by (auto simp: load_state_def cycle_def prelude_bad_state)

theorem load_state_zero_value_only_when_absent_witness:
  "load_state (demo_env [] writable accept_all) empty_world ''state.json''
     = Inr (PDict [(''lastTimestamp'', PStr [])])
   \<and> load_state (demo_env [] writable accept_all)
        (with_file ''state.json'' ''not json'' empty_world) ''state.json''
     = Inl (JSONDecodeError ''Expecting value: line 1 column 1 (char 0)'')
   \<and> run (demo_env [] writable accept_all) acme_settings
        [reading_at (ok_response ''[]''), reading_at (ok_response ''[]'')]
        (with_file ''state.json'' ''not json'' empty_world)
     = Crashed (JSONDecodeError ''Expecting value: line 1 column 1 (char 0)'')
         (with_file ''state.json'' ''not json'' empty_world)"
  using load_state_zero_value_only_when_absent
    [of empty_world "''state.json''" "demo_env [] writable accept_all" acme_settings]
    load_state_zero_value_only_when_absent
    [of "with_file ''state.json'' ''not json'' empty_world" "''state.json''"
        "demo_env [] writable accept_all" acme_settings
        "reading_at (ok_response ''[]'')" "[reading_at (ok_response ''[]'')]"]
  by (simp add: demo_env_def table_loads_def with_file_def empty_world_def acme_settings_def)

subsection \<open>Persistence layer\<close>

lemma map_of_dict_set: "map_of (dict_set k v d) k' = (if k' = k then Some v else map_of d k')"
  by (simp add: dict_set_def update_conv')

lemma map_of_stringified:
  "map_of (map (\<lambda>kv. (fst kv, f (snd kv))) d) k = map_option f (map_of d k)"
  by (induction d) auto

lemma stamp_dict:
  "stamp E (PDict m) (PDict d) =
     Inr (dict_set ''category'' (case map_of m ''category'' of None \<Rightarrow> PStr ''Social Media'' | Some v \<Rightarrow> v)
         (dict_set ''source_name''
            (case map_of m ''source_name'' of
               None \<Rightarrow> (case map_option (stringify_id E) (map_of d ''pageNameSource'') of
                          None \<Rightarrow> PStr ''Facebook Page'' | Some v \<Rightarrow> v)
             | Some v \<Rightarrow> v)
         (dict_set ''post_type'' (case map_of m ''post_type'' of None \<Rightarrow> PStr ''post'' | Some v \<Rightarrow> v)
         (dict_set ''source_type'' (case map_of m ''source_type'' of None \<Rightarrow> PStr ''facebook'' | Some v \<Rightarrow> v)
            (map (\<lambda>kv. (fst kv, stringify_id E (snd kv))) d)))))"
  by (simp add: stamp_def Let_def map_of_dict_set map_of_stringified cong: option.case_cong)

lemma stamp_not_dict:
  "\<forall>d. item \<noteq> PDict d \<Longrightarrow> stamp E md item = Inl (no_attribute item ''items'', item)"
  by (cases item) (auto simp: stamp_def)

lemma insert_one_cases:
  "insert_one E doc w = (r, doc', w') \<Longrightarrow>
     files w' = files w
     \<and> doc' = (case map_of doc ''_id'' of Some _ \<Rightarrow> doc
              | None \<Rightarrow> dict_set ''_id'' (PObjectId (new_oid E (oids w))) doc)
     \<and> oids w' = (case map_of doc ''_id'' of Some _ \<Rightarrow> oids w | None \<Rightarrow> Suc (oids w))
     \<and> (case r of Inl e \<Rightarrow> docs w' = docs w | Inr _ \<Rightarrow> docs w' = docs w @ [PDict doc'])"
  by (auto simp: insert_one_def Let_def split: option.splits prod.splits)

lemma save_item_frame:
  "save_item E md item w = (r, item', w') \<Longrightarrow> files w' = files w"
  by (auto simp: save_item_def split: sum.splits prod.splits dest: insert_one_cases)

lemma save_item_docs:
  "save_item E md item w = (r, item', w') \<Longrightarrow>
     (case r of Inl e \<Rightarrow> docs w' = docs w | Inr _ \<Rightarrow> docs w' = docs w @ [item'])"
  by (auto simp: save_item_def split: sum.splits prod.splits dest: insert_one_cases)

lemma save_loop_frame:
  "save_loop E md xs w = (n, xs', out, w') \<Longrightarrow> files w' = files w"
proof (induction xs arbitrary: w n xs' out w')
  case Nil
  then show ?case by simp
next
  case (Cons x xs)
  then show ?case
    by (auto split: prod.splits sum.splits dest: save_item_frame)
qed

lemma save_loop_counts:
  "save_loop E md xs w = (n, xs', out, w') \<Longrightarrow>
     length (docs w') = length (docs w) + n \<and> n + length out = length xs
     \<and> length xs' = length xs
     \<and> (\<forall>l \<in> set out. starts_with ''[WARN] Failed to insert item: '' l)"
proof (induction xs arbitrary: w n xs' out w')
  case Nil
  then show ?case by simp
next
  case (Cons x xs)
  show ?case
  proof (cases "save_item E md x w")
    case (fields r item' w1)
    obtain n2 xs2 out2 w2 where rest: "save_loop E md xs w1 = (n2, xs2, out2, w2)"
      by (cases "save_loop E md xs w1") auto
    note ih = Cons.IH [OF rest]
    from save_item_docs [OF fields] Cons.prems fields rest ih show ?thesis
      by (cases r) (auto simp: warn_line_def)
  qed
qed

lemma save_loop_append:
  "save_loop E md (ys @ zs) w =
     (case save_loop E md ys w of
        (n1, ys', out1, w1) \<Rightarrow>
          (case save_loop E md zs w1 of
             (n2, zs', out2, w2) \<Rightarrow> (n1 + n2, ys' @ zs', out1 @ out2, w2)))"
  by (induction ys arbitrary: w) (auto split: prod.splits sum.splits)

lemma save_loop_docs:
  assumes step: "\<And>x w r item' w1. save_item E md x w = (Inr r, item', w1) \<Longrightarrow> P item'"
  shows "save_loop E md xs w = (n, xs', out, w') \<Longrightarrow>
     \<exists>new. docs w' = docs w @ new \<and> length new = n \<and> (\<forall>doc \<in> set new. P doc)"
proof (induction xs arbitrary: w n xs' out w')
  case Nil
  then show ?case by simp
next
  case (Cons x xs)
  show ?case
  proof (cases "save_item E md x w")
    case (fields r item' w1)
    obtain n2 xs2 out2 w2 where rest: "save_loop E md xs w1 = (n2, xs2, out2, w2)"
      by (cases "save_loop E md xs w1") auto
    from Cons.IH [OF rest] obtain new where
      new: "docs w2 = docs w1 @ new" "length new = n2" "\<forall>doc \<in> set new. P doc" by blast
    show ?thesis
    proof (cases r)
      case (Inl e)
      with save_item_docs [OF fields] Cons.prems fields rest new show ?thesis by auto
    next
      case (Inr u)
      with fields step have "P item'" by blast
      moreover from Inr save_item_docs [OF fields] have "docs w1 = docs w @ [item']" by simp
      ultimately show ?thesis
        using Cons.prems fields rest new Inr
        by (intro exI [of _ "item' # new"]) auto
    qed
  qed
qed

lemma stamp_is_stamped_doc: "stamp E (PDict m) (PDict d) = Inr (stamped_doc E m d)"
  by (simp add: stamp_dict stamped_doc_def)

lemma map_of_stamped_doc:
  "map_of (stamped_doc E m d) k =
     (if k = ''category'' then Some (case map_of m ''category'' of None \<Rightarrow> PStr ''Social Media'' | Some v \<Rightarrow> v)
      else if k = ''source_name'' then
        Some (case map_of m ''source_name'' of
                None \<Rightarrow> (case map_option (stringify_id E) (map_of d ''pageNameSource'') of
                           None \<Rightarrow> PStr ''Facebook Page'' | Some v \<Rightarrow> v)
              | Some v \<Rightarrow> v)
      else if k = ''post_type'' then Some (case map_of m ''post_type'' of None \<Rightarrow> PStr ''post'' | Some v \<Rightarrow> v)
      else if k = ''source_type'' then Some (case map_of m ''source_type'' of None \<Rightarrow> PStr ''facebook'' | Some v \<Rightarrow> v)
      else map_option (stringify_id E) (map_of d k))"
  by (simp add: stamped_doc_def map_of_dict_set map_of_stringified)

lemma map_of_with_id: "k \<noteq> ''_id'' \<Longrightarrow> map_of (with_id v S) k = map_of S k"
  by (simp add: with_id_def map_of_dict_set split: option.splits)

lemma save_item_dict:
  assumes "save_item E (PDict m) item w = (r, item', w')"
  shows "(\<forall>d. item \<noteq> PDict d) \<and> (\<exists>e. r = Inl e) \<and> item' = item \<and> w' = w
       \<or> (\<exists>d. item = PDict d
            \<and> item' = PDict (case map_of (stamped_doc E m d) ''_id'' of
                               Some _ \<Rightarrow> stamped_doc E m d
                             | None \<Rightarrow> dict_set ''_id'' (PObjectId (new_oid E (oids w)))
                                        (stamped_doc E m d)))"
proof (cases "\<exists>d. item = PDict d")
  case True
  then obtain d where d: "item = PDict d" by blast
  with assms show ?thesis
    by (auto simp: save_item_def stamp_is_stamped_doc split: prod.splits dest: insert_one_cases)
next
  case False
  then have "\<forall>d. item \<noteq> PDict d" by blast
  with assms show ?thesis
    by (auto simp: save_item_def stamp_not_dict)
qed

lemma save_loop_docs_from:
  assumes step: "\<And>x w r item' w1. save_item E md x w = (Inr r, item', w1) \<Longrightarrow> P x item'"
  shows "save_loop E md xs w = (n, xs', out, w') \<Longrightarrow>
     \<exists>new. docs w' = docs w @ new \<and> length new = n \<and> (\<forall>doc \<in> set new. \<exists>x \<in> set xs. P x doc)"
proof (induction xs arbitrary: w n xs' out w')
  case Nil
  then show ?case by simp
next
  case (Cons x xs)
  show ?case
  proof (cases "save_item E md x w")
    case (fields r item' w1)
    obtain n2 xs2 out2 w2 where rest: "save_loop E md xs w1 = (n2, xs2, out2, w2)"
      by (cases "save_loop E md xs w1") auto
    from Cons.IH [OF rest] obtain new where
      new: "docs w2 = docs w1 @ new" "length new = n2"
           "\<forall>doc \<in> set new. \<exists>x \<in> set xs. P x doc" by blast
    show ?thesis
    proof (cases r)
      case (Inl e)
      with save_item_docs [OF fields] Cons.prems fields rest new show ?thesis by auto
    next
      case (Inr u)
      with fields step have "P x item'" by blast
      moreover from Inr save_item_docs [OF fields] have "docs w1 = docs w @ [item']" by simp
      ultimately show ?thesis
        using Cons.prems fields rest new Inr
        by (intro exI [of _ "item' # new"]) auto
    qed
  qed
qed

lemma save_items_to_db_list:
  "save_items_to_db E items md w = (Inr (n, items', out), w') \<Longrightarrow>
   \<exists>xs xs' out1. py_iter items = Inr xs \<and> save_loop E md xs w = (n, xs', out1, w')"
  by (auto simp: save_items_to_db_def split: sum.splits prod.splits)


lemma dec_small [simp]:
  "dec 0 = ''0''" "dec (Suc 0) = ''1''" "dec 1 = ''1''" "dec 2 = ''2''" "dec 3 = ''3''"
  by code_simp+

lemma tagged_item_saved:
  "save_items_to_db (demo_env [] writable accept_all) (PList [tagged_item]) partial_metadata
     empty_world
   = (Inr (1,
           PList [PDict [(''text'', PStr ''hi''), (''pageNameSource'', PStr ''Acme Corp''),
                         (''source_type'', PStr ''instagram''), (''post_type'', PStr ''post''),
                         (''source_name'', PStr ''Acme Corp''),
                         (''category'', PStr ''Social Media''), (''_id'', PObjectId ''oid0'')]],
           [''[INFO] Successfully inserted 1 of 1 items into database'']),
      \<lparr>files = Map.empty,
       docs = [PDict [(''text'', PStr ''hi''), (''pageNameSource'', PStr ''Acme Corp''),
                      (''source_type'', PStr ''instagram''), (''post_type'', PStr ''post''),
                      (''source_name'', PStr ''Acme Corp''),
                      (''category'', PStr ''Social Media''), (''_id'', PObjectId ''oid0'')]],
       oids = 1\<rparr>)"
  by (simp add: save_items_to_db_def save_item_def stamp_def insert_one_def dict_set_def
      Let_def demo_env_def accept_all_def empty_world_def tagged_item_def
      partial_metadata_def)

lemma str_int_42: "str_int 42 = ''42''"
  by code_simp

lemma map_of_with_id_kept: "map_of S ''_id'' = Some v \<Longrightarrow> map_of (with_id oid S) ''_id'' = Some v"
  by (simp add: with_id_def)

lemma stringify_id_without:
  "(\<forall>nested i. v = PDict nested \<longrightarrow> map_of nested ''_id'' \<noteq> Some i) \<Longrightarrow> stringify_id E v = v"
  by (cases v) (auto split: option.splits)

text \<open>
  C8, as amended.  Beyond the four stamped fields and the \<^verbatim>\<open>_id\<close> the driver adds to a
  document that has none, every field of a stored document is the field of the fetched
  item passed through \<^verbatim>\<open>stringify_id\<close>: a value that is not a mapping with an
  \<^verbatim>\<open>_id\<close> entry is unchanged, and in a mapping with such an entry that entry, and only
  it, is replaced by its \<^verbatim>\<open>str()\<close>.
\<close>

theorem other_fields_pass_through_except_nested_id:
  assumes "save_items_to_db E items (PDict m) w = (Inr (n, items', out), w')"
  shows "\<exists>xs new. py_iter items = Inr xs \<and> docs w' = docs w @ new \<and>
     (\<forall>doc \<in> set new. \<exists>d d'. PDict d \<in> set xs \<and> doc = PDict d'
        \<and> (\<forall>k. k \<notin> four_stamped \<and> k \<noteq> ''_id'' \<longrightarrow>
               map_of d' k = map_option (stringify_id E) (map_of d k))
        \<and> (\<forall>v. map_of d ''_id'' = Some v \<longrightarrow> map_of d' ''_id'' = Some (stringify_id E v)))
   \<and> (\<forall>v. (\<forall>nested i. v = PDict nested \<longrightarrow> map_of nested ''_id'' \<noteq> Some i) \<longrightarrow>
          stringify_id E v = v)
   \<and> (\<forall>nested i. map_of nested ''_id'' = Some i \<longrightarrow>
          stringify_id E (PDict nested) = PDict (dict_set ''_id'' (PStr (py_str E i)) nested))"
proof -
  let ?P = "\<lambda>x doc. \<exists>d d'. PDict d = x \<and> doc = PDict d'
        \<and> (\<forall>k. k \<notin> four_stamped \<and> k \<noteq> ''_id'' \<longrightarrow>
               map_of d' k = map_option (stringify_id E) (map_of d k))
        \<and> (\<forall>v. map_of d ''_id'' = Some v \<longrightarrow> map_of d' ''_id'' = Some (stringify_id E v))"
  have step: "?P x item'" if "save_item E (PDict m) x w0 = (Inr r, item', w1)" for x w0 r item' w1
  proof -
    from save_item_dict [OF that] obtain d where
      "x = PDict d" "item' = PDict (with_id (PObjectId (new_oid E (oids w0))) (stamped_doc E m d))"
      by (auto simp: with_id_def)
    then show ?thesis
      by (auto simp: map_of_with_id map_of_with_id_kept map_of_stamped_doc four_stamped_def)
  qed
  from save_items_to_db_list [OF assms] obtain xs xs' out1 where
    it: "py_iter items = Inr xs" and "save_loop E (PDict m) xs w = (n, xs', out1, w')" by blast
  then have "\<exists>new. docs w' = docs w @ new \<and> length new = n
      \<and> (\<forall>doc \<in> set new. \<exists>x \<in> set xs. ?P x doc)"
    by (intro save_loop_docs_from [where P = ?P, rotated]) (assumption, erule step)
  with it show ?thesis
    by (auto simp: stringify_id_without) blast
qed

lemma nested_item_saved:
  "save_items_to_db (demo_env [] writable accept_all) (PList [nested_item])
     default_source_metadata empty_world
   = (Inr (1,
           PList [PDict [(''text'', PStr ''hi''),
                         (''author'', PDict [(''_id'', PStr ''42''), (''name'', PStr ''Ann'')]),
                         (''source_type'', PStr ''facebook''), (''post_type'', PStr ''post''),
                         (''source_name'', PStr ''Facebook Page''),
                         (''category'', PStr ''Social Media''), (''_id'', PObjectId ''oid0'')]],
           [''[INFO] Successfully inserted 1 of 1 items into database'']),
      \<lparr>files = Map.empty,
       docs = [PDict [(''text'', PStr ''hi''),
                      (''author'', PDict [(''_id'', PStr ''42''), (''name'', PStr ''Ann'')]),
                      (''source_type'', PStr ''facebook''), (''post_type'', PStr ''post''),
                      (''source_name'', PStr ''Facebook Page''),
                      (''category'', PStr ''Social Media''), (''_id'', PObjectId ''oid0'')]],
       oids = 1\<rparr>)"
  by (simp add: save_items_to_db_def save_item_def stamp_def insert_one_def dict_set_def
      Let_def demo_env_def accept_all_def empty_world_def nested_item_def
      default_source_metadata_def str_int_42)

text \<open>
  C8 as stated fails: the \<^verbatim>\<open>author\<close> field of the stored document differs from the one
  the source returned, its nested \<^verbatim>\<open>_id\<close> 42 having become the string \<^verbatim>\<open>42\<close>
  (lines 159-161).
\<close>

theorem nested_id_rewritten_counterexample:
  "map (\<lambda>doc. field_or_null doc ''author'')
     (docs (snd (save_items_to_db (demo_env [] writable accept_all) (PList [nested_item])
                   default_source_metadata empty_world)))
   = [PDict [(''_id'', PStr ''42''), (''name'', PStr ''Ann'')]]
   \<and> field_or_null nested_item ''author'' = PDict [(''_id'', PInt 42), (''name'', PStr ''Ann'')]"
  by (simp add: nested_item_saved field_or_null_def) (simp add: nested_item_def)

theorem other_fields_pass_through_except_nested_id_witness:
  "save_items_to_db (demo_env [] writable accept_all) (PList [nested_item])
     default_source_metadata empty_world
   = (Inr (1,
           PList [PDict [(''text'', PStr ''hi''),
                         (''author'', PDict [(''_id'', PStr ''42''), (''name'', PStr ''Ann'')]),
                         (''source_type'', PStr ''facebook''), (''post_type'', PStr ''post''),
                         (''source_name'', PStr ''Facebook Page''),
                         (''category'', PStr ''Social Media''), (''_id'', PObjectId ''oid0'')]],
           [''[INFO] Successfully inserted 1 of 1 items into database'']),
      \<lparr>files = Map.empty,
       docs = [PDict [(''text'', PStr ''hi''),
                      (''author'', PDict [(''_id'', PStr ''42''), (''name'', PStr ''Ann'')]),
                      (''source_type'', PStr ''facebook''), (''post_type'', PStr ''post''),
                      (''source_name'', PStr ''Facebook Page''),
                      (''category'', PStr ''Social Media''), (''_id'', PObjectId ''oid0'')]],
       oids = 1\<rparr>)
   \<and> stringify_id (demo_env [] writable accept_all) (PStr ''hi'') = PStr ''hi''
   \<and> stringify_id (demo_env [] writable accept_all)
        (PDict [(''_id'', PInt 42), (''name'', PStr ''Ann'')])
      = PDict [(''_id'', PStr ''42''), (''name'', PStr ''Ann'')]"
  using other_fields_pass_through_except_nested_id
    [OF nested_item_saved [unfolded default_source_metadata_def]]
    nested_item_saved
  by (simp add: str_int_42 dict_set_def)

subsection \<open>Fetch, persist, checkpoint\<close>

lemma native_items_lookup: "native_items d \<Longrightarrow> map_of d k = Some v \<Longrightarrow> native v"
  by (induction d) (auto split: if_splits)

lemma native_items_dict_set: "native_items d \<Longrightarrow> native v \<Longrightarrow> native_items (dict_set k v d)"
  by (induction d) (auto simp: dict_set_def)

lemma native_stringify_id: "native v \<Longrightarrow> native (stringify_id E v)"
  by (cases v) (auto simp: native_items_dict_set split: option.splits)

lemma native_extract_items: "native v \<Longrightarrow> native (extract_items v)"
  by (cases v) (auto simp: extract_items_def native_items_lookup split: option.splits)

lemma run_actor_frame:
  "run_actor_and_get_items E p now w = (r, w') \<Longrightarrow>
     docs w' = docs w \<and> oids w' = oids w
     \<and> (\<forall>path. path \<noteq> ''error_log.txt'' \<longrightarrow> files w' path = files w path)"
  by (auto simp: run_actor_and_get_items_def open_a_def f_write_def put_text_def
      split: sum.splits option.splits if_splits prod.splits write_fault.splits)

lemma run_actor_native:
  "run_actor_and_get_items E p now w = (Inr items, w') \<Longrightarrow>
   (\<And>s v. loads E s = Inr v \<Longrightarrow> native v) \<Longrightarrow> native items"
  by (auto simp: run_actor_and_get_items_def native_extract_items
      split: sum.splits option.splits if_splits prod.splits write_fault.splits)

lemma save_items_to_db_frame:
  "save_items_to_db E items md w = (r, w') \<Longrightarrow> files w' = files w"
  by (auto simp: save_items_to_db_def split: sum.splits prod.splits dest: save_loop_frame)


lemma save_state_cases:
  assumes "native ts" and "save_state E path ts w = (r, w')"
  shows "(\<exists>m. write_error E path = Some (AtOpen m) \<and> r = Inl (OSError m) \<and> w' = w)
       \<or> (\<exists>m k. write_error E path = Some (AtWrite m k) \<and> r = Inl (OSError m)
              \<and> w' = w\<lparr>files := (files w)(path \<mapsto>
                        take k (dumps_indent E (PDict [(''lastTimestamp'', ts)])))\<rparr>)
       \<or> (write_error E path = None \<and> r = Inr ()
          \<and> w' = w\<lparr>files := (files w)(path \<mapsto> dumps_indent E (PDict [(''lastTimestamp'', ts)]))\<rparr>)"
proof -
  from assms(1) have "encode base_default (PDict [(''lastTimestamp'', ts)])
      = Inr (PDict [(''lastTimestamp'', ts)])"
    by (simp add: encode_native)
  from json_dump_file_cases [OF this assms(2) [unfolded save_state_def]] show ?thesis .
qed

lemma py_get_dict: "py_get v k dflt = Inr r \<Longrightarrow> \<exists>d. v = PDict d"
  by (cases v) auto

lemma first_timestamp:
  assumes saved: "save_items_to_db E items (PDict m) w = (Inr (cnt, items', out), w')"
    and first: "bindE (py_first items') (\<lambda>x. py_get x ''timestamp'' PNone) = Inr latest"
    and "truthy latest"
  shows "\<exists>d xs ts. items = PList (PDict d # xs) \<and> map_of d ''timestamp'' = Some ts
           \<and> latest = stringify_id E ts"
proof -
  from first obtain x' where x': "py_first items' = Inr x'" "py_get x' ''timestamp'' PNone = Inr latest"
    by (auto simp: bindE_def split: sum.splits)
  from x'(2) obtain d' where d': "x' = PDict d'" by (auto dest: py_get_dict)
  from saved obtain xs0 xs' out1 where
    it: "py_iter items = Inr xs0" and loop: "save_loop E (PDict m) xs0 w = (cnt, xs', out1, w')"
    and items': "items' = (case items of PList _ \<Rightarrow> PList xs' | _ \<Rightarrow> items)"
    by (auto simp: save_items_to_db_def split: sum.splits prod.splits)
  from x'(1) d' items' it obtain rest where l: "items = PList xs0" "xs' = PDict d' # rest"
    by (cases items) (auto split: list.splits)
  from loop l(2) obtain x xs where xs0: "xs0 = x # xs" by (cases xs0) auto
  from loop l(2) xs0 obtain r w1 where si: "save_item E (PDict m) x w = (r, PDict d', w1)"
    by (auto split: prod.splits sum.splits)
  from save_item_dict [OF si] obtain d where
    d: "x = PDict d" "d' = with_id (PObjectId (new_oid E (oids w))) (stamped_doc E m d)"
    by (auto simp: with_id_def)
  from x'(2) d' d(2) \<open>truthy latest\<close>
  obtain ts where "map_of d ''timestamp'' = Some ts" "latest = stringify_id E ts"
    by (auto simp: map_of_with_id map_of_stamped_doc split: option.splits)
  with l(1) xs0 d(1) show ?thesis by blast
qed

lemma fpc_state_file:
  assumes sf: "state_file su \<noteq> ''error_log.txt''"
    and parser: "\<And>s v. loads E s = Inr v \<Longrightarrow> native v"
    and run: "fetch_persist_checkpoint E su rd w = (r, w')"
  shows "files w' (state_file su) = files w (state_file su)
       \<or> (\<exists>d xs ts w1 res.
            run_actor_and_get_items E (posted rd) (errlog_now rd) w
              = (Inr (PList (PDict d # xs)), w1)
          \<and> map_of d ''timestamp'' = Some ts \<and> truthy (stringify_id E ts)
          \<and> (r = Inr res
               \<and> files w' (state_file su)
                   = Some (dumps_indent E (PDict [(''lastTimestamp'', stringify_id E ts)]))
             \<or> (\<exists>m k. write_error E (state_file su) = Some (AtWrite m k) \<and> r = Inl (OSError m)
                  \<and> files w' (state_file su)
                      = Some (take k (dumps_indent E
                                (PDict [(''lastTimestamp'', stringify_id E ts)]))))))"
proof -
  obtain r1 w1 where ra: "run_actor_and_get_items E (posted rd) (errlog_now rd) w = (r1, w1)"
    by (cases "run_actor_and_get_items E (posted rd) (errlog_now rd) w") auto
  from run_actor_frame [OF ra] sf have f1: "files w1 (state_file su) = files w (state_file su)"
    by simp
  show ?thesis
  proof (cases r1)
    case (Inl e)
    with run ra f1 show ?thesis by (simp add: fetch_persist_checkpoint_def)
  next
    case (Inr items)
    from run_actor_native [OF ra [unfolded Inr] parser] have nat: "native items" .
    show ?thesis
    proof (cases "\<exists>n m. py_len items = Inr n \<and> source_metadata su = PDict m \<and> truthy items")
      case False
      with run ra Inr f1 show ?thesis
        by (cases "source_metadata su")
           (auto simp: fetch_persist_checkpoint_def no_attribute_def split: sum.splits)
    next
      case True
      then obtain n m where pre: "py_len items = Inr n" "source_metadata su = PDict m" "truthy items"
        by blast
      obtain r2 w2 where sv: "save_items_to_db E items (PDict m) w1 = (r2, w2)"
        by (cases "save_items_to_db E items (PDict m) w1") auto
      from save_items_to_db_frame [OF sv] f1
      have f2: "files w2 (state_file su) = files w (state_file su)" by simp
      show ?thesis
      proof (cases r2)
        case (Inl e)
        with run ra Inr pre sv f2 show ?thesis by (simp add: fetch_persist_checkpoint_def)
      next
        case (Inr res2)
        obtain cnt items' out where res2: "res2 = (cnt, items', out)" by (cases res2) auto
        show ?thesis
        proof (cases "bindE (py_first items') (\<lambda>x. py_get x ''timestamp'' PNone)")
          case (Inl e)
          with run ra \<open>r1 = Inr items\<close> pre sv Inr res2 f2 show ?thesis
            by (simp add: fetch_persist_checkpoint_def)
        next
          case latest: (Inr latest_ts)
          show ?thesis
          proof (cases "truthy latest_ts")
            case False
            with run ra \<open>r1 = Inr items\<close> pre sv Inr res2 f2 latest show ?thesis
              by (simp add: fetch_persist_checkpoint_def)
          next
            case True
            from first_timestamp [OF sv [unfolded Inr res2] latest True]
            obtain d xs ts where
              shape: "items = PList (PDict d # xs)" "map_of d ''timestamp'' = Some ts"
                     "latest_ts = stringify_id E ts" by blast
            from nat shape have "native latest_ts"
              by (auto simp: native_stringify_id dest: native_items_lookup)
            obtain r3 w3 where ss: "save_state E (state_file su) latest_ts w2 = (r3, w3)"
              by (cases "save_state E (state_file su) latest_ts w2") auto
            from run ra \<open>r1 = Inr items\<close> pre sv Inr res2 latest True ss
            have out: "w' = w3" "r = (case r3 of Inl e \<Rightarrow> Inl e | Inr _ \<Rightarrow> Inr (items', n, latest_ts))"
              by (auto simp: fetch_persist_checkpoint_def split: sum.splits)
            from save_state_cases [OF \<open>native latest_ts\<close> ss] show ?thesis
            proof (elim disjE exE conjE)
              fix m
              assume "write_error E (state_file su) = Some (AtOpen m)" "r3 = Inl (OSError m)"
                "w3 = w2"
              with out f2 show ?thesis by auto
            next
              fix m k
              assume "write_error E (state_file su) = Some (AtWrite m k)" "r3 = Inl (OSError m)"
                "w3 = w2\<lparr>files := (files w2)(state_file su \<mapsto>
                        take k (dumps_indent E (PDict [(''lastTimestamp'', latest_ts)])))\<rparr>"
              with out shape True ra \<open>r1 = Inr items\<close> show ?thesis by auto
            next
              assume "write_error E (state_file su) = None" "r3 = Inr ()"
                "w3 = w2\<lparr>files := (files w2)(state_file su \<mapsto>
                        dumps_indent E (PDict [(''lastTimestamp'', latest_ts)]))\<rparr>"
              with out shape True ra \<open>r1 = Inr items\<close> show ?thesis by auto
            qed
          qed
        qed
      qed
    qed
  qed
qed

subsection \<open>The scenario of the specification\<close>

lemma acme_prelude:
  "files w ''state.json'' = None \<Longrightarrow>
   prelude (demo_env t we rj) acme_settings w
     = Inr (PStr [], PDict [(''startUrls'',
              PList [PDict [(''url'', PStr ''https://facebook.com/Acme'')]])])"
  by (simp add: prelude_def load_state_def bindE_def substitute_def json_dumps_def
      acme_settings_def demo_env_def json_string_def)

lemma runtime_15_07: "response_filename (reading_at p) = ''data/apify_response_03-07pm.json''"
  unfolding response_filename_def reading_at_def by code_simp

lemmas eval_cycle =
  fetch_persist_checkpoint_def run_actor_and_get_items_def
  demo_env_def table_loads_def ok_response_def reading_at_def raise_for_status_def
  extract_items_def acme_settings_def default_source_metadata_def
  save_items_to_db_def save_item_def stamp_def insert_one_def dict_set_def Let_def
  accept_all_def empty_world_def bindE_def save_state_def json_dump_file_def open_w_def
  writable_def f_write_def put_text_def base_default_def mongo_default_def

lemma hi_fetch:
  "fetch_persist_checkpoint (hi_env accept_all) acme_settings (reading_at (ok_response ''[hi]''))
     empty_world
   = (Inr (PList [hi_stored], 1, PStr ''2024-01-01T00:00:00Z''),
      \<lparr>files = [''state.json'' \<mapsto>
                 json_indent 0 (PDict [(''lastTimestamp'', PStr ''2024-01-01T00:00:00Z'')])],
       docs = [hi_stored], oids = 1\<rparr>)"
  by (simp add: eval_cycle hi_env_def hi_item_def hi_stored_def)

lemma hi_snapshot_and_log:
  "snapshot_and_log (hi_env rej) (reading_at p)
     (PList [hi_stored], Suc 0, PStr ''2024-01-01T00:00:00Z'') w
   = (Inr (),
      w\<lparr>files := (files w)
           (''data/apify_response_03-07pm.json'' \<mapsto> json_indent 0 hi_snapshot,
            ''log.jsonl'' \<mapsto> content w ''log.jsonl'' @ json_text hi_record @ [CHR 0x0A])\<rparr>)"
  unfolding snapshot_and_log_def runtime_15_07
  by (simp add: json_dump_file_def open_w_def f_write_def put_text_def log_run_def open_a_def json_dumps_def
      mongo_default_def hi_env_def demo_env_def writable_def hi_stored_def hi_snapshot_def
      hi_record_def success_entry_def reading_at_def content_def fun_upd_twist
      split: option.splits)

lemma hi_prelude:
  "files w ''state.json'' = None \<Longrightarrow>
   prelude (hi_env rej) acme_settings w
     = Inr (PStr [], PDict [(''startUrls'',
              PList [PDict [(''url'', PStr ''https://facebook.com/Acme'')]])])"
  unfolding hi_env_def by (rule acme_prelude)

lemma acme_sleep: "py_sleep (frequency acme_settings) = Inr ()"
  by (simp add: acme_settings_def)

lemma hi_cycle:
  "cycle (hi_env accept_all) acme_settings (reading_at (ok_response ''[hi]'')) empty_world
   = Slept \<lparr>files = [''state.json'' \<mapsto>
                       json_indent 0 (PDict [(''lastTimestamp'', PStr ''2024-01-01T00:00:00Z'')]),
                     ''data/apify_response_03-07pm.json'' \<mapsto> json_indent 0 hi_snapshot,
                     ''log.jsonl'' \<mapsto> json_text hi_record @ [CHR 0x0A]],
            docs = [hi_stored], oids = 1\<rparr>"
proof -
  have p: "prelude (hi_env accept_all) acme_settings empty_world
     = Inr (PStr [], PDict [(''startUrls'',
              PList [PDict [(''url'', PStr ''https://facebook.com/Acme'')]])])"
    by (rule hi_prelude) (simp add: empty_world_def)
  show ?thesis
    by (simp add: cycle_def try_body_def p hi_fetch hi_snapshot_and_log acme_sleep content_def)
qed

text \<open>
  C4 at its input.  The configuration of the scenario has no \<^verbatim>\<open>source_metadata\<close>, so
  \<^verbatim>\<open>extract_source_metadata\<close> starts from the default mapping, whose \<^verbatim>\<open>source_name\<close> is
  \<^verbatim>\<open>Facebook Page\<close>; the derivation from the start URL (lines 144-148) runs only when the
  name is missing or empty, so it is skipped.  The cycle writes the checkpoint
  \<^verbatim>\<open>{"lastTimestamp": "2024-01-01T00:00:00Z"}\<close> and inserts one document, as the claim says,
  but the document's \<^verbatim>\<open>source_name\<close> is \<^verbatim>\<open>Facebook Page\<close>, where the derivation would
  have given \<^verbatim>\<open>Acme\<close>.
\<close>

theorem acme_scenario_source_name_is_default:
  "startup acme_config = Inr acme_settings
   \<and> cycle (hi_env accept_all) acme_settings (reading_at (ok_response ''[hi]'')) empty_world
     = Slept \<lparr>files = [''state.json'' \<mapsto>
                         json_indent 0 (PDict [(''lastTimestamp'', PStr ''2024-01-01T00:00:00Z'')]),
                       ''data/apify_response_03-07pm.json'' \<mapsto> json_indent 0 hi_snapshot,
                       ''log.jsonl'' \<mapsto> json_text hi_record @ [CHR 0x0A]],
              docs = [hi_stored], oids = 1\<rparr>
   \<and> field_or_null hi_stored ''source_name'' = PStr ''Facebook Page''
   \<and> page_name ''https://facebook.com/Acme'' = ''Acme''"
proof -
  have "startup acme_config = Inr acme_settings"
    by (simp add: startup_def acme_config_def acme_settings_def bindE_def
        extract_source_metadata_def default_source_metadata_def)
  moreover have "page_name ''https://facebook.com/Acme'' = ''Acme''"
    by code_simp
  moreover have "field_or_null hi_stored ''source_name'' = PStr ''Facebook Page''"
    by (simp add: field_or_null_def hi_stored_def)
  ultimately show ?thesis by (simp add: hi_cycle)
qed

subsection \<open>The cycle and the checkpoint\<close>

lemma snapshot_and_log_frame:
  "snapshot_and_log E rd r w = (q, w') \<Longrightarrow>
     docs w' = docs w \<and> oids w' = oids w
     \<and> (\<forall>p. p \<noteq> response_filename rd \<and> p \<noteq> ''log.jsonl'' \<longrightarrow> files w' p = files w p)"
proof -
  assume a: "snapshot_and_log E rd r w = (q, w')"
  obtain items n ts where r: "r = (items, n, ts)" by (cases r) auto
  obtain q1 w1 where d: "json_dump_file E mongo_default (response_filename rd)
      (PDict [(''runAt'', PStr (snapshot_now rd @ ''Z'')), (''data'', items)]) w = (q1, w1)"
    by (cases "json_dump_file E mongo_default (response_filename rd)
      (PDict [(''runAt'', PStr (snapshot_now rd @ ''Z'')), (''data'', items)]) w") auto
  note f1 = json_dump_file_frame [OF d]
  show ?thesis
  proof (cases q1)
    case (Inl e)
    with a r d f1 show ?thesis by (simp add: snapshot_and_log_def)
  next
    case (Inr u)
    with a r d have "log_run E (success_entry rd n ts) ''log.jsonl'' w1 = (q, w')"
      by (simp add: snapshot_and_log_def)
    from log_run_frame [OF this] f1 show ?thesis by simp
  qed
qed

lemma cycle_state_file:
  assumes "sf \<noteq> ''log.jsonl''" and "sf \<noteq> response_filename rd"
  shows "files (world_of (cycle E su rd w)) sf
       = (case prelude E su w of
            Inl e \<Rightarrow> files w sf
          | Inr _ \<Rightarrow> files (snd (fetch_persist_checkpoint E su rd w)) sf)"
proof (cases "prelude E su w")
  case (Inl e)
  then show ?thesis by (simp add: cycle_def)
next
  case (Inr p)
  obtain r1 w1 where f: "fetch_persist_checkpoint E su rd w = (r1, w1)"
    by (cases "fetch_persist_checkpoint E su rd w") auto
  obtain r2 w2 where t: "try_body E su rd w = (r2, w2)"
    by (cases "try_body E su rd w") auto
  have t2: "files w2 sf = files w1 sf"
  proof (cases r1)
    case (Inl e)
    with f t show ?thesis by (simp add: try_body_def)
  next
    case (Inr res)
    with f t have "snapshot_and_log E rd res w1 = (r2, w2)" by (simp add: try_body_def)
    from snapshot_and_log_frame [OF this] assms show ?thesis by simp
  qed
  obtain r3 w3 where h: "(case r2 of Inl e \<Rightarrow> log_run E (error_entry rd e) ''log.jsonl'' w2
                          | Inr _ \<Rightarrow> (Inr (), w2)) = (r3, w3)"
    by (cases "(case r2 of Inl e \<Rightarrow> log_run E (error_entry rd e) ''log.jsonl'' w2
                          | Inr _ \<Rightarrow> (Inr (), w2))") auto
  have t3: "files w3 sf = files w2 sf"
    using h assms(1) by (cases r2) (auto dest: log_run_frame)
  have "world_of (cycle E su rd w) = w3"
    using Inr t h by (auto simp: cycle_def split: sum.splits)
  with t2 t3 f Inr show ?thesis by simp
qed

lemma fpc_persist_raises:
  assumes "fetch_persist_checkpoint E su rd w = (r, w')"
    and "run_actor_and_get_items E (posted rd) (errlog_now rd) w = (Inr items, w0)"
    and "save_items_to_db E items (source_metadata su) w0 = (Inl e, w1)"
    and "state_file su \<noteq> ''error_log.txt''"
  shows "files w' (state_file su) = files w (state_file su)"
proof -
  from run_actor_frame [OF assms(2)] assms(4)
  have f0: "files w0 (state_file su) = files w (state_file su)" by simp
  from save_items_to_db_frame [OF assms(3)] have f1: "files w1 = files w0" .
  from assms(1,2,3) have "w' = w0 \<or> w' = w1"
    by (auto simp: fetch_persist_checkpoint_def split: sum.splits if_splits)
  with f0 f1 show ?thesis by auto
qed

text \<open>
  C1, as amended.  Provided the checkpoint file is not one of the other files the cycle
  writes and the parser returns JSON values: a cycle changes the checkpoint file only when
  the fetch returned a non-empty list whose first item is a mapping with a truthy
  \<^verbatim>\<open>timestamp\<close>; whether any insert succeeded plays no part.  When the checkpoint step
  then succeeds, the file holds \<^verbatim>\<open>{"lastTimestamp": ts}\<close> for that timestamp as the
  persistence step left it (\<open>stringify_id\<close> changes only a mapping with an \<^verbatim>\<open>_id\<close>); when
  its write fails after the open, the old content is gone and the file holds the leading
  part of that text that had been written, possibly nothing.  A cycle whose fetch or
  persistence step raises, or whose checkpoint step fails at the open, leaves the file as
  it was, and so does a cycle whose fetch returns no items.
\<close>

theorem checkpoint_written_only_from_first_timestamp:
  assumes paths: "state_file su \<notin> {''error_log.txt'', ''log.jsonl'', response_filename rd}"
    and parser: "\<And>s v. loads E s = Inr v \<Longrightarrow> native v"
  shows "(files (world_of (cycle E su rd w)) (state_file su) \<noteq> files w (state_file su) \<longrightarrow>
            (\<exists>d xs ts w1.
               run_actor_and_get_items E (posted rd) (errlog_now rd) w
                 = (Inr (PList (PDict d # xs)), w1)
             \<and> map_of d ''timestamp'' = Some ts \<and> truthy (stringify_id E ts)
             \<and> ((\<exists>res. fst (fetch_persist_checkpoint E su rd w) = Inr res)
                  \<and> files (world_of (cycle E su rd w)) (state_file su)
                      = Some (dumps_indent E (PDict [(''lastTimestamp'', stringify_id E ts)]))
                \<or> (\<exists>m k. write_error E (state_file su) = Some (AtWrite m k)
                     \<and> fst (fetch_persist_checkpoint E su rd w) = Inl (OSError m)
                     \<and> files (world_of (cycle E su rd w)) (state_file su)
                         = Some (take k (dumps_indent E
                                   (PDict [(''lastTimestamp'', stringify_id E ts)])))))))
       \<and> (\<forall>e w1. fetch_persist_checkpoint E su rd w = (Inl e, w1)
               \<and> (\<forall>m k. write_error E (state_file su) \<noteq> Some (AtWrite m k)) \<longrightarrow>
             files (world_of (cycle E su rd w)) (state_file su) = files w (state_file su))
       \<and> (\<forall>e w0. run_actor_and_get_items E (posted rd) (errlog_now rd) w = (Inl e, w0) \<longrightarrow>
             files (world_of (cycle E su rd w)) (state_file su) = files w (state_file su))
       \<and> (\<forall>items w0 e w1.
               run_actor_and_get_items E (posted rd) (errlog_now rd) w = (Inr items, w0)
               \<and> save_items_to_db E items (source_metadata su) w0 = (Inl e, w1) \<longrightarrow>
             files (world_of (cycle E su rd w)) (state_file su) = files w (state_file su))
       \<and> (\<forall>items w1. run_actor_and_get_items E (posted rd) (errlog_now rd) w = (Inr items, w1)
               \<and> \<not> truthy items \<longrightarrow>
             files (world_of (cycle E su rd w)) (state_file su) = files w (state_file su))"
proof -
  let ?sf = "state_file su"
  let ?C = "files (world_of (cycle E su rd w)) ?sf"
  from paths have p: "?sf \<noteq> ''error_log.txt''" "?sf \<noteq> ''log.jsonl''" "?sf \<noteq> response_filename rd"
    by auto
  obtain r1 w1 where f: "fetch_persist_checkpoint E su rd w = (r1, w1)"
    by (cases "fetch_persist_checkpoint E su rd w") auto
  note c = cycle_state_file [OF p(2) p(3), of E su w]
  have k: "files w1 ?sf = files w ?sf
       \<or> (\<exists>d xs ts w0 res.
            run_actor_and_get_items E (posted rd) (errlog_now rd) w
              = (Inr (PList (PDict d # xs)), w0)
          \<and> map_of d ''timestamp'' = Some ts \<and> truthy (stringify_id E ts)
          \<and> (r1 = Inr res
               \<and> files w1 ?sf = Some (dumps_indent E (PDict [(''lastTimestamp'', stringify_id E ts)]))
             \<or> (\<exists>m k. write_error E ?sf = Some (AtWrite m k) \<and> r1 = Inl (OSError m)
                  \<and> files w1 ?sf
                      = Some (take k (dumps_indent E
                                (PDict [(''lastTimestamp'', stringify_id E ts)]))))))"
    by (rule fpc_state_file [OF p(1) _ f]) (rule parser)
  have a: "?C = files w ?sf \<or> ?C = files w1 ?sf"
    using c f by (cases "prelude E su w") auto
  have first: "?C \<noteq> files w ?sf \<longrightarrow>
            (\<exists>d xs ts w1.
               run_actor_and_get_items E (posted rd) (errlog_now rd) w
                 = (Inr (PList (PDict d # xs)), w1)
             \<and> map_of d ''timestamp'' = Some ts \<and> truthy (stringify_id E ts)
             \<and> ((\<exists>res. r1 = Inr res)
                  \<and> ?C = Some (dumps_indent E (PDict [(''lastTimestamp'', stringify_id E ts)]))
                \<or> (\<exists>m k. write_error E ?sf = Some (AtWrite m k) \<and> r1 = Inl (OSError m)
                     \<and> ?C = Some (take k (dumps_indent E
                                   (PDict [(''lastTimestamp'', stringify_id E ts)]))))))"
  proof
    assume ch: "?C \<noteq> files w ?sf"
    with a have eq: "?C = files w1 ?sf" and "files w1 ?sf \<noteq> files w ?sf" by auto
    with k obtain d xs ts w0 res where
      "run_actor_and_get_items E (posted rd) (errlog_now rd) w = (Inr (PList (PDict d # xs)), w0)"
      "map_of d ''timestamp'' = Some ts" "truthy (stringify_id E ts)"
      "r1 = Inr res
         \<and> files w1 ?sf = Some (dumps_indent E (PDict [(''lastTimestamp'', stringify_id E ts)]))
       \<or> (\<exists>m k. write_error E ?sf = Some (AtWrite m k) \<and> r1 = Inl (OSError m)
            \<and> files w1 ?sf
                = Some (take k (dumps_indent E (PDict [(''lastTimestamp'', stringify_id E ts)]))))"
      by blast
    with eq show "\<exists>d xs ts w1.
               run_actor_and_get_items E (posted rd) (errlog_now rd) w
                 = (Inr (PList (PDict d # xs)), w1)
             \<and> map_of d ''timestamp'' = Some ts \<and> truthy (stringify_id E ts)
             \<and> ((\<exists>res. r1 = Inr res)
                  \<and> ?C = Some (dumps_indent E (PDict [(''lastTimestamp'', stringify_id E ts)]))
                \<or> (\<exists>m k. write_error E ?sf = Some (AtWrite m k) \<and> r1 = Inl (OSError m)
                     \<and> ?C = Some (take k (dumps_indent E
                                   (PDict [(''lastTimestamp'', stringify_id E ts)])))))"
      by (intro exI [of _ d] exI [of _ xs] exI [of _ ts] exI [of _ w0])
         (auto simp del: split_paired_Ex)
  qed
  have second: "\<forall>e w1. fetch_persist_checkpoint E su rd w = (Inl e, w1)
               \<and> (\<forall>m k. write_error E ?sf \<noteq> Some (AtWrite m k)) \<longrightarrow> ?C = files w ?sf"
    using a k f by auto
  have third: "\<forall>e w0. run_actor_and_get_items E (posted rd) (errlog_now rd) w = (Inl e, w0) \<longrightarrow>
             ?C = files w ?sf"
    using a k by auto
  have fourth: "\<forall>items w0 e w1.
               run_actor_and_get_items E (posted rd) (errlog_now rd) w = (Inr items, w0)
               \<and> save_items_to_db E items (source_metadata su) w0 = (Inl e, w1) \<longrightarrow>
             ?C = files w ?sf"
    using a fpc_persist_raises [OF f _ _ p(1)] by auto
  have fifth: "\<forall>items w1. run_actor_and_get_items E (posted rd) (errlog_now rd) w = (Inr items, w1)
               \<and> \<not> truthy items \<longrightarrow> ?C = files w ?sf"
    using a k by auto
  from first second third fourth fifth show ?thesis
    unfolding f fst_conv by blast
qed

lemma hi_fetch_rejected:
  "fetch_persist_checkpoint (hi_env unique_url) acme_settings (reading_at (ok_response ''[hi]''))
     stale_world
   = (Inr (PList [hi_stored], 1, PStr ''2024-01-01T00:00:00Z''),
      \<lparr>files = [''state.json'' \<mapsto>
                 json_indent 0 (PDict [(''lastTimestamp'', PStr ''2024-01-01T00:00:00Z'')])],
       docs = [PDict [(''text'', PStr ''old'')]], oids = 1\<rparr>)"
  by (simp add: eval_cycle hi_env_def hi_item_def hi_stored_def stale_world_def unique_url_def
      field_or_null_def)

lemma hi_cycle_rejected:
  "cycle (hi_env unique_url) acme_settings (reading_at (ok_response ''[hi]'')) stale_world
   = Slept \<lparr>files = [''state.json'' \<mapsto>
                       json_indent 0 (PDict [(''lastTimestamp'', PStr ''2024-01-01T00:00:00Z'')]),
                     ''data/apify_response_03-07pm.json'' \<mapsto> json_indent 0 hi_snapshot,
                     ''log.jsonl'' \<mapsto> json_text hi_record @ [CHR 0x0A]],
            docs = [PDict [(''text'', PStr ''old'')]], oids = 1\<rparr>"
proof -
  have p: "prelude (hi_env unique_url) acme_settings stale_world
     = Inr (PStr [], PDict [(''startUrls'',
              PList [PDict [(''url'', PStr ''https://facebook.com/Acme'')]])])"
    by (rule hi_prelude) (simp add: stale_world_def)
  show ?thesis
    by (simp add: cycle_def try_body_def p hi_fetch_rejected hi_snapshot_and_log acme_sleep
        content_def)
qed

text \<open>
  C1 as stated fails: the store refuses the only item (a duplicate under the unique index),
  so nothing is persisted, and the checkpoint advances all the same.
\<close>

theorem checkpoint_advances_without_insert_counterexample:
  "docs (world_of (cycle (hi_env unique_url) acme_settings (reading_at (ok_response ''[hi]''))
           stale_world))
     = docs stale_world
   \<and> files stale_world ''state.json'' = None
   \<and> files (world_of (cycle (hi_env unique_url) acme_settings
                (reading_at (ok_response ''[hi]'')) stale_world)) ''state.json''
     = Some (json_indent 0 (PDict [(''lastTimestamp'', PStr ''2024-01-01T00:00:00Z'')]))"
  by (simp add: hi_cycle_rejected) (simp add: stale_world_def)

lemma hi_env_parser: "loads (hi_env rej) s = Inr v \<Longrightarrow> native v"
  by (auto simp: hi_env_def demo_env_def table_loads_def hi_item_def split: if_splits)

lemma acme_paths:
  "state_file acme_settings \<notin> {''error_log.txt'', ''log.jsonl'', response_filename (reading_at p)}"
  by (simp add: acme_settings_def runtime_15_07)

lemma timeout_fetch:
  "fetch_persist_checkpoint E su (reading_at (Inl (RequestException ''read timed out''))) w
   = (Inl (RequestException ''read timed out''), w)"
  by (simp add: fetch_persist_checkpoint_def run_actor_and_get_items_def reading_at_def)

lemma full_disk_parser: "loads full_disk_env s = Inr v \<Longrightarrow> native v"
  by (auto simp: full_disk_env_def demo_env_def table_loads_def hi_item_def split: if_splits)

lemma full_disk_prelude:
  "prelude full_disk_env acme_settings envelope_world
     = Inr (PStr ''2023-12-31T00:00:00Z'',
            PDict [(''startUrls'', PList [PDict [(''url'', PStr ''https://facebook.com/Acme'')]])])"
  by (simp add: prelude_def load_state_def bindE_def substitute_def json_dumps_def
      acme_settings_def full_disk_env_def demo_env_def json_string_def table_loads_def
      envelope_world_def with_file_def empty_world_def)

lemma full_disk_fetch:
  "fetch_persist_checkpoint full_disk_env acme_settings (reading_at (ok_response ''[hi]''))
     envelope_world
   = (Inl (OSError ''[Errno 28] No space left on device''),
      \<lparr>files = [''state.json'' \<mapsto> []], docs = [hi_stored], oids = 1\<rparr>)"
  by (simp add: eval_cycle full_disk_env_def full_disk_def envelope_world_def with_file_def
      hi_item_def hi_stored_def)

lemma full_disk_cycle:
  "cycle full_disk_env acme_settings (reading_at (ok_response ''[hi]'')) envelope_world
   = Slept full_disk_world"
  by (simp add: cycle_def try_body_def full_disk_prelude full_disk_fetch acme_sleep)
     (simp add: log_run_def open_a_def json_dumps_def f_write_def put_text_def error_entry_def
        full_disk_env_def full_disk_def demo_env_def reading_at_def full_disk_record_def
        full_disk_world_def acme_sleep)


theorem checkpoint_written_only_from_first_timestamp_witness:
  "state_file acme_settings
     \<notin> {''error_log.txt'', ''log.jsonl'', response_filename (reading_at (ok_response ''[hi]''))}
   \<and> files (world_of (cycle (hi_env accept_all) acme_settings
                (reading_at (ok_response ''[hi]'')) empty_world)) ''state.json''
     = Some (json_indent 0 (PDict [(''lastTimestamp'', PStr ''2024-01-01T00:00:00Z'')]))
   \<and> files (world_of (cycle (hi_env accept_all) acme_settings
                (reading_at (Inl (RequestException ''read timed out''))) empty_world))
        ''state.json''
     = None
   \<and> files envelope_world ''state.json'' = Some ''{checkpoint}''
   \<and> write_error full_disk_env ''state.json''
     = Some (AtWrite ''[Errno 28] No space left on device'' 0)
   \<and> files (world_of (cycle full_disk_env acme_settings
                (reading_at (ok_response ''[hi]'')) envelope_world)) ''state.json''
     = Some []"
proof -
  note a = checkpoint_written_only_from_first_timestamp
    [where su = acme_settings and rd = "reading_at (ok_response ''[hi]'')"
       and E = "hi_env accept_all" and w = empty_world, OF acme_paths hi_env_parser]
  note b = checkpoint_written_only_from_first_timestamp
    [where su = acme_settings and rd = "reading_at (Inl (RequestException ''read timed out''))"
       and E = "hi_env accept_all" and w = empty_world, OF acme_paths hi_env_parser]
  note c = checkpoint_written_only_from_first_timestamp
    [where su = acme_settings and rd = "reading_at (ok_response ''[hi]'')"
       and E = full_disk_env and w = envelope_world, OF acme_paths full_disk_parser]
  have "state_file acme_settings = ''state.json''" by (simp add: acme_settings_def)
  moreover have "files envelope_world ''state.json'' = Some ''{checkpoint}''"
    by (simp add: envelope_world_def with_file_def)
  moreover have "write_error full_disk_env ''state.json''
     = Some (AtWrite ''[Errno 28] No space left on device'' 0)"
    by (simp add: full_disk_env_def demo_env_def full_disk_def)
  moreover have "files (world_of (cycle full_disk_env acme_settings
                (reading_at (ok_response ''[hi]'')) envelope_world)) ''state.json'' = Some []"
    by (simp add: full_disk_cycle full_disk_world_def)
  ultimately show ?thesis
    using a b c timeout_fetch [of "hi_env accept_all" acme_settings empty_world] acme_paths
    by (simp add: hi_cycle) (simp add: empty_world_def)
qed

subsection \<open>A cycle that raises\<close>







subsection \<open>A fetch without items\<close>

lemma response_filename_distinct:
  "response_filename rd \<noteq> ''log.jsonl''" "response_filename rd \<noteq> ''error_log.txt''"
  by (simp_all add: response_filename_def)

lemma fetch_envelope:
  assumes "posted rd = Inr res" and "raise_for_status res = Inr ()"
    and "status_code res = 200 \<or> write_error E ''error_log.txt'' = None"
    and "loads E (body_text res) = Inr data"
  shows "\<exists>w1. run_actor_and_get_items E (posted rd) (errlog_now rd) w = (Inr (extract_items data), w1)
          \<and> docs w1 = docs w \<and> oids w1 = oids w
          \<and> (\<forall>p. p \<noteq> ''error_log.txt'' \<longrightarrow> files w1 p = files w p)"
  using assms
  by (auto simp: run_actor_and_get_items_def open_a_def f_write_def put_text_def split: option.splits)

text \<open>
  C6.  In a cycle whose fetch returns the envelope \<^verbatim>\<open>{"data": []}\<close> the items are the
  empty list, the checkpoint file is what it was, the Run Record appended has
  \<^verbatim>\<open>itemCount\<close> 0 and status SUCCEEDED, the snapshot holds the empty list and no document
  is stored.  The cycle is one that runs to its end: the steps before the \<^verbatim>\<open>try\<close> have
  succeeded, the configured metadata is a mapping, the snapshot and the log can be written,
  the sleep interval is valid, and the checkpoint file is none of the other files.
\<close>

theorem empty_envelope_cycle:
  assumes pre: "prelude E su w = Inr p"
    and resp: "posted rd = Inr res" "raise_for_status res = Inr ()"
      "status_code res = 200 \<or> write_error E ''error_log.txt'' = None"
      "loads E (body_text res) = Inr (PDict [(''data'', PList [])])"
    and md: "source_metadata su = PDict m"
    and wr: "write_error E (response_filename rd) = None" "write_error E ''log.jsonl'' = None"
    and sleep: "py_sleep (frequency su) = Inr ()"
    and paths: "state_file su \<notin> {''error_log.txt'', ''log.jsonl'', response_filename rd}"
  shows "\<exists>w1 w'.
       run_actor_and_get_items E (posted rd) (errlog_now rd) w = (Inr (PList []), w1)
     \<and> cycle E su rd w = Slept w'
     \<and> files w' (state_file su) = files w (state_file su)
     \<and> files w' ''log.jsonl''
         = Some (content w ''log.jsonl''
                 @ dumps E (PDict [(''runAt'', PStr (log_now rd @ ''Z'')),
                                   (''runId'', PStr (run_id_now rd)),
                                   (''status'', PStr ''SUCCEEDED''), (''itemCount'', PInt 0),
                                   (''latestTimestamp'', PNone), (''error'', PNone)])
                 @ [CHR 0x0A])
     \<and> files w' (response_filename rd)
         = Some (dumps_indent E (PDict [(''runAt'', PStr (snapshot_now rd @ ''Z'')),
                                        (''data'', PList [])]))
     \<and> docs w' = docs w"
proof -
  from fetch_envelope [OF resp, of w] obtain w1 where
    f: "run_actor_and_get_items E (posted rd) (errlog_now rd) w = (Inr (PList []), w1)"
    and w1: "docs w1 = docs w" "\<forall>p. p \<noteq> ''error_log.txt'' \<longrightarrow> files w1 p = files w p"
    by (auto simp: extract_items_def)
  have fpc: "fetch_persist_checkpoint E su rd w = (Inr (PList [], 0, PNone), w1)"
    by (simp add: fetch_persist_checkpoint_def f md)
  let ?snap = "PDict [(''runAt'', PStr (snapshot_now rd @ ''Z'')), (''data'', PList [])]"
  let ?w2 = "w1\<lparr>files := (files w1)(response_filename rd \<mapsto> dumps_indent E ?snap)\<rparr>"
  let ?rec = "success_entry rd 0 PNone"
  let ?w3 = "?w2\<lparr>files := (files ?w2)(''log.jsonl'' \<mapsto>
      content ?w2 ''log.jsonl'' @ dumps E ?rec @ [CHR 0x0A])\<rparr>"
  have d: "json_dump_file E mongo_default (response_filename rd) ?snap w1 = (Inr (), ?w2)"
    using json_dump_file_ok [OF wr(1), of ?snap w1] by simp
  have l: "log_run E ?rec ''log.jsonl'' ?w2 = (Inr (), ?w3)"
    using log_run_appends [OF _ wr(2), of ?rec ?w2] by (simp add: success_entry_def)
  have c: "cycle E su rd w = Slept ?w3"
    by (simp add: cycle_def pre try_body_def fpc snapshot_and_log_def d l sleep)
  from paths have sf: "state_file su \<noteq> ''error_log.txt''" "state_file su \<noteq> ''log.jsonl''"
    "state_file su \<noteq> response_filename rd" by auto
  have "files ?w3 (state_file su) = files w (state_file su)"
    using sf w1 by simp
  moreover have "files ?w3 ''log.jsonl''
         = Some (content w ''log.jsonl''
                 @ dumps E (PDict [(''runAt'', PStr (log_now rd @ ''Z'')),
                                   (''runId'', PStr (run_id_now rd)),
                                   (''status'', PStr ''SUCCEEDED''), (''itemCount'', PInt 0),
                                   (''latestTimestamp'', PNone), (''error'', PNone)])
                 @ [CHR 0x0A])"
    using w1 response_filename_distinct [of rd]
    by (simp add: content_def success_entry_def)
  moreover have "files ?w3 (response_filename rd) = Some (dumps_indent E ?snap)"
    using response_filename_distinct [of rd] by simp
  moreover have "docs ?w3 = docs w" using w1 by simp
  ultimately show ?thesis using f c by blast
qed

lemma envelope_prelude:
  "prelude envelope_env acme_settings envelope_world
     = Inr (PStr ''2023-12-31T00:00:00Z'',
            PDict [(''startUrls'', PList [PDict [(''url'', PStr ''https://facebook.com/Acme'')]])])"
  by (simp add: prelude_def load_state_def bindE_def substitute_def json_dumps_def
      acme_settings_def envelope_env_def demo_env_def json_string_def table_loads_def
      envelope_world_def with_file_def empty_world_def)

theorem empty_envelope_cycle_witness:
  "(\<exists>w'. cycle envelope_env acme_settings (reading_at (ok_response ''{data:[]}'')) envelope_world
           = Slept w')
   \<and> files envelope_world ''state.json'' = Some ''{checkpoint}''
   \<and> files (world_of (cycle envelope_env acme_settings (reading_at (ok_response ''{data:[]}''))
                envelope_world)) ''state.json''
     = Some ''{checkpoint}''
   \<and> files (world_of (cycle envelope_env acme_settings (reading_at (ok_response ''{data:[]}''))
                envelope_world)) ''log.jsonl''
     = Some (json_text envelope_record @ [CHR 0x0A])
   \<and> files (world_of (cycle envelope_env acme_settings (reading_at (ok_response ''{data:[]}''))
                envelope_world)) ''data/apify_response_03-07pm.json''
     = Some (json_indent 0 (PDict [(''runAt'', PStr ''2024-01-01T15:07:01+00:00Z''),
                                   (''data'', PList [])]))"
proof -
  let ?rd = "reading_at (ok_response ''{data:[]}'')"
  have r: "posted ?rd = Inr \<lparr>status_code = 200, body_text = ''{data:[]}'', status_error = []\<rparr>"
    by (simp add: reading_at_def ok_response_def)
  have m: "source_metadata acme_settings
     = PDict [(''source_type'', PStr ''facebook''), (''post_type'', PStr ''post''),
              (''source_name'', PStr ''Facebook Page''), (''category'', PStr ''Social Media'')]"
    by (simp add: acme_settings_def default_source_metadata_def)
  have w: "write_error envelope_env q = None" for q
    by (simp add: envelope_env_def demo_env_def writable_def)
  from empty_envelope_cycle [OF envelope_prelude r _ _ _ m w w acme_sleep acme_paths]
  obtain w1 w' where
    "cycle envelope_env acme_settings ?rd envelope_world = Slept w'"
    "files w' (state_file acme_settings) = files envelope_world (state_file acme_settings)"
    "files w' ''log.jsonl''
       = Some (content envelope_world ''log.jsonl''
               @ dumps envelope_env (PDict [(''runAt'', PStr (log_now ?rd @ ''Z'')),
                                   (''runId'', PStr (run_id_now ?rd)),
                                   (''status'', PStr ''SUCCEEDED''), (''itemCount'', PInt 0),
                                   (''latestTimestamp'', PNone), (''error'', PNone)])
               @ [CHR 0x0A])"
    "files w' (response_filename ?rd)
       = Some (dumps_indent envelope_env (PDict [(''runAt'', PStr (snapshot_now ?rd @ ''Z'')),
                                        (''data'', PList [])]))"
    by (auto simp: raise_for_status_def envelope_env_def demo_env_def table_loads_def)
  then show ?thesis
    by (simp add: runtime_15_07 acme_settings_def)
       (simp add: envelope_world_def with_file_def empty_world_def content_def reading_at_def
          envelope_env_def demo_env_def envelope_record_def)
qed

subsection \<open>Snapshot files\<close>








subsection \<open>Inserts the store refuses\<close>

text \<open>
  What the store refuses is seen by the collection alone: the files, the results and the
  exceptions of every step are those of the same step with a store that refuses otherwise.
\<close>

lemma same_but_docs_refl [simp]: "same_but_docs w w"
  by (simp add: same_but_docs_def)

lemma log_run_rej:
  "same_but_docs w v \<Longrightarrow>
   fst (log_run (E\<lparr>rejects := r\<rparr>) data path w) = fst (log_run E data path v)
   \<and> same_but_docs (snd (log_run (E\<lparr>rejects := r\<rparr>) data path w)) (snd (log_run E data path v))"
  by (auto simp: same_but_docs_def log_run_def open_a_def f_write_def put_text_def json_dumps_def
      split: option.splits sum.splits write_fault.splits)

lemma json_dump_file_rej:
  "same_but_docs w v \<Longrightarrow>
   fst (json_dump_file (E\<lparr>rejects := r\<rparr>) dflt path x w) = fst (json_dump_file E dflt path x v)
   \<and> same_but_docs (snd (json_dump_file (E\<lparr>rejects := r\<rparr>) dflt path x w))
        (snd (json_dump_file E dflt path x v))"
  by (auto simp: same_but_docs_def json_dump_file_def open_w_def f_write_def put_text_def
      split: option.splits sum.splits write_fault.splits)

lemma run_actor_rej:
  "same_but_docs w v \<Longrightarrow>
   fst (run_actor_and_get_items (E\<lparr>rejects := r\<rparr>) p now w) = fst (run_actor_and_get_items E p now v)
   \<and> same_but_docs (snd (run_actor_and_get_items (E\<lparr>rejects := r\<rparr>) p now w))
        (snd (run_actor_and_get_items E p now v))"
  by (auto simp: same_but_docs_def run_actor_and_get_items_def open_a_def f_write_def put_text_def
      split: option.splits sum.splits write_fault.splits)

lemma stringify_id_rej: "stringify_id (E\<lparr>rejects := r\<rparr>) x = stringify_id E x"
proof (cases x)
  case (PDict d)
  have "py_str (E\<lparr>rejects := r\<rparr>) i = py_str E i" for i by (cases i) auto
  with PDict show ?thesis by (auto split: option.splits)
qed auto

lemma stamp_rej: "stamp (E\<lparr>rejects := r\<rparr>) md item = stamp E md item"
  by (cases item) (simp_all add: stamp_def stringify_id_rej)

lemma save_item_rej:
  assumes "same_but_docs w v"
  shows "fst (snd (save_item (E\<lparr>rejects := r\<rparr>) md item w)) = fst (snd (save_item E md item v))
   \<and> same_but_docs (snd (snd (save_item (E\<lparr>rejects := r\<rparr>) md item w)))
        (snd (snd (save_item E md item v)))"
  using assms
  by (auto simp: save_item_def stamp_rej insert_one_def Let_def same_but_docs_def
      split: sum.splits prod.splits option.splits)

lemma save_loop_rej:
  "same_but_docs w v \<Longrightarrow>
   fst (snd (save_loop (E\<lparr>rejects := r\<rparr>) md xs w)) = fst (snd (save_loop E md xs v))
   \<and> same_but_docs (snd (snd (snd (save_loop (E\<lparr>rejects := r\<rparr>) md xs w))))
        (snd (snd (snd (save_loop E md xs v))))"
proof (induction xs arbitrary: w v)
  case Nil
  then show ?case by simp
next
  case (Cons x xs)
  obtain q1 i1 w1 where a: "save_item (E\<lparr>rejects := r\<rparr>) md x w = (q1, i1, w1)"
    by (cases "save_item (E\<lparr>rejects := r\<rparr>) md x w") auto
  obtain q2 i2 v1 where b: "save_item E md x v = (q2, i2, v1)"
    by (cases "save_item E md x v") auto
  from save_item_rej [where E = E and r = r and md = md and item = x, OF Cons.prems] a b
  have i: "i1 = i2" and s: "same_but_docs w1 v1" by simp_all
  from Cons.IH [OF s] a b i show ?case
    by (cases q1; cases q2) (auto split: prod.splits)
qed

lemma save_items_to_db_rej:
  assumes "same_but_docs w v"
  shows "map_sum id (\<lambda>t. fst (snd t)) (fst (save_items_to_db (E\<lparr>rejects := r\<rparr>) items md w))
       = map_sum id (\<lambda>t. fst (snd t)) (fst (save_items_to_db E items md v))
   \<and> same_but_docs (snd (save_items_to_db (E\<lparr>rejects := r\<rparr>) items md w))
        (snd (save_items_to_db E items md v))"
proof (cases "py_iter items")
  case (Inl e)
  with assms show ?thesis by (simp add: save_items_to_db_def)
next
  case (Inr xs)
  from save_loop_rej [where E = E and r = r and md = md and xs = xs, OF assms] Inr show ?thesis
    by (auto simp: save_items_to_db_def split: prod.splits)
qed

lemma save_state_rej:
  "same_but_docs w v \<Longrightarrow>
   fst (save_state (E\<lparr>rejects := r\<rparr>) path ts w) = fst (save_state E path ts v)
   \<and> same_but_docs (snd (save_state (E\<lparr>rejects := r\<rparr>) path ts w)) (snd (save_state E path ts v))"
  unfolding save_state_def by (rule json_dump_file_rej)

lemma fpc_rej:
  assumes "same_but_docs w v"
  shows "fst (fetch_persist_checkpoint (E\<lparr>rejects := r\<rparr>) su rd w)
           = fst (fetch_persist_checkpoint E su rd v)
   \<and> same_but_docs (snd (fetch_persist_checkpoint (E\<lparr>rejects := r\<rparr>) su rd w))
        (snd (fetch_persist_checkpoint E su rd v))"
proof -
  let ?E = "E\<lparr>rejects := r\<rparr>"
  obtain q1 w1 where a: "run_actor_and_get_items ?E (posted rd) (errlog_now rd) w = (q1, w1)"
    by (cases "run_actor_and_get_items ?E (posted rd) (errlog_now rd) w") auto
  obtain q2 v1 where b: "run_actor_and_get_items E (posted rd) (errlog_now rd) v = (q2, v1)"
    by (cases "run_actor_and_get_items E (posted rd) (errlog_now rd) v") auto
  from run_actor_rej [where E = E and r = r and p = "posted rd" and now = "errlog_now rd",
      OF assms] a b
  have q: "q2 = q1" and s1: "same_but_docs w1 v1" by simp_all
  show ?thesis
  proof (cases q1)
    case (Inl e)
    with a b q s1 show ?thesis by (simp add: fetch_persist_checkpoint_def)
  next
    case (Inr items)
    let ?md = "source_metadata su"
    obtain q3 w2 where c: "save_items_to_db ?E items ?md w1 = (q3, w2)"
      by (cases "save_items_to_db ?E items ?md w1") auto
    obtain q4 v2 where d: "save_items_to_db E items ?md v1 = (q4, v2)"
      by (cases "save_items_to_db E items ?md v1") auto
    from save_items_to_db_rej [where E = E and r = r and items = items and md = ?md, OF s1] c d
    have m: "map_sum id (\<lambda>t. fst (snd t)) q3 = map_sum id (\<lambda>t. fst (snd t)) q4"
      and s2: "same_but_docs w2 v2" by simp_all
    have tail: "fst (case save_state ?E (state_file su) ts w2 of
                   (Inl e, w3) \<Rightarrow> (Inl e, w3)
                 | (Inr _, w3) \<Rightarrow> (Inr (it, n, ts), w3))
              = fst (case save_state E (state_file su) ts v2 of
                   (Inl e, w3) \<Rightarrow> (Inl e, w3)
                 | (Inr _, w3) \<Rightarrow> (Inr (it, n, ts), w3))
          \<and> same_but_docs
               (snd (case save_state ?E (state_file su) ts w2 of
                   (Inl e, w3) \<Rightarrow> (Inl e, w3)
                 | (Inr _, w3) \<Rightarrow> (Inr (it, n, ts), w3)))
               (snd (case save_state E (state_file su) ts v2 of
                   (Inl e, w3) \<Rightarrow> (Inl e, w3)
                 | (Inr _, w3) \<Rightarrow> (Inr (it, n, ts), w3)))" for ts it n
      using save_state_rej [where E = E and r = r and path = "state_file su" and ts = ts, OF s2]
      by (auto split: prod.splits sum.splits)
    show ?thesis
    proof (cases q3)
      case l3: (Inl e)
      with m obtain e' where "q4 = Inl e'" "e' = e" by (cases q4) auto
      with a b q Inr c d l3 s1 s2 show ?thesis
        by (auto simp: fetch_persist_checkpoint_def split: sum.splits)
    next
      case r3: (Inr t3)
      with m obtain t4 where r4: "q4 = Inr t4" "fst (snd t4) = fst (snd t3)" by (cases q4) auto
      obtain c3 it o3 where t3: "t3 = (c3, it, o3)" by (cases t3) auto
      with r4 obtain c4 o4 where t4: "t4 = (c4, it, o4)" by (cases t4) auto
      from a b q Inr c d r3 r4 t3 t4 s1 s2 show ?thesis
        by (simp add: fetch_persist_checkpoint_def tail split: sum.splits)
    qed
  qed
qed

lemma prelude_rej:
  "same_but_docs w v \<Longrightarrow> prelude (E\<lparr>rejects := r\<rparr>) su w = prelude E su v"
proof -
  assume "same_but_docs w v"
  then have f: "files w = files v" by (simp add: same_but_docs_def)
  have l: "loads (E\<lparr>rejects := r\<rparr>) = loads E" and d: "dumps (E\<lparr>rejects := r\<rparr>) = dumps E"
    by simp_all
  show ?thesis
    unfolding prelude_def load_state_def substitute_def json_dumps_def f l d ..
qed

lemma snapshot_and_log_rej:
  assumes "same_but_docs w v"
  shows "fst (snapshot_and_log (E\<lparr>rejects := r\<rparr>) rd t w) = fst (snapshot_and_log E rd t v)
   \<and> same_but_docs (snd (snapshot_and_log (E\<lparr>rejects := r\<rparr>) rd t w))
        (snd (snapshot_and_log E rd t v))"
proof -
  let ?E = "E\<lparr>rejects := r\<rparr>"
  obtain items n ts where t: "t = (items, n, ts)" by (cases t) auto
  let ?x = "PDict [(''runAt'', PStr (snapshot_now rd @ ''Z'')), (''data'', items)]"
  obtain q1 w1 where a: "json_dump_file ?E mongo_default (response_filename rd) ?x w = (q1, w1)"
    by (cases "json_dump_file ?E mongo_default (response_filename rd) ?x w") auto
  obtain q2 v1 where b: "json_dump_file E mongo_default (response_filename rd) ?x v = (q2, v1)"
    by (cases "json_dump_file E mongo_default (response_filename rd) ?x v") auto
  from json_dump_file_rej [where E = E and r = r and dflt = mongo_default
      and path = "response_filename rd" and x = ?x, OF assms] a b
  have q: "q2 = q1" and s1: "same_but_docs w1 v1" by simp_all
  show ?thesis
  proof (cases q1)
    case (Inl e)
    with t a b q s1 show ?thesis by (simp add: snapshot_and_log_def)
  next
    case (Inr u)
    with t a b q
      log_run_rej [where E = E and r = r and data = "success_entry rd n ts"
        and path = "''log.jsonl''", OF s1]
    show ?thesis by (simp add: snapshot_and_log_def)
  qed
qed

lemma try_body_rej:
  assumes "same_but_docs w v"
  shows "fst (try_body (E\<lparr>rejects := r\<rparr>) su rd w) = fst (try_body E su rd v)
   \<and> same_but_docs (snd (try_body (E\<lparr>rejects := r\<rparr>) su rd w)) (snd (try_body E su rd v))"
proof -
  let ?E = "E\<lparr>rejects := r\<rparr>"
  obtain q1 w1 where a: "fetch_persist_checkpoint ?E su rd w = (q1, w1)"
    by (cases "fetch_persist_checkpoint ?E su rd w") auto
  obtain q2 v1 where b: "fetch_persist_checkpoint E su rd v = (q2, v1)"
    by (cases "fetch_persist_checkpoint E su rd v") auto
  from fpc_rej [where E = E and r = r and su = su and rd = rd, OF assms] a b
  have q: "q2 = q1" and s1: "same_but_docs w1 v1" by simp_all
  show ?thesis
  proof (cases q1)
    case (Inl e)
    with a b q s1 show ?thesis by (simp add: try_body_def)
  next
    case (Inr t)
    with a b q snapshot_and_log_rej [where E = E and r = r and rd = rd and t = t, OF s1]
    show ?thesis by (simp add: try_body_def)
  qed
qed

lemma cycle_rej:
  assumes "same_but_docs w v"
  shows "alike (cycle (E\<lparr>rejects := r\<rparr>) su rd w) (cycle E su rd v)"
proof -
  let ?E = "E\<lparr>rejects := r\<rparr>"
  note p = prelude_rej [where E = E and r = r and su = su, OF assms]
  obtain q1 w1 where a: "try_body ?E su rd w = (q1, w1)"
    by (cases "try_body ?E su rd w") auto
  obtain q2 v1 where b: "try_body E su rd v = (q2, v1)"
    by (cases "try_body E su rd v") auto
  from try_body_rej [where E = E and r = r and su = su and rd = rd, OF assms] a b
  have q: "q2 = q1" and s1: "same_but_docs w1 v1" by simp_all
  show ?thesis
  proof (cases "prelude E su v")
    case (Inl e)
    with p assms show ?thesis by (simp add: cycle_def)
  next
    case pr: (Inr x)
    show ?thesis
    proof (cases q1)
      case (Inl e)
      obtain q3 w2 where c: "log_run ?E (error_entry rd e) ''log.jsonl'' w1 = (q3, w2)"
        by (cases "log_run ?E (error_entry rd e) ''log.jsonl'' w1") auto
      obtain q4 v2 where d: "log_run E (error_entry rd e) ''log.jsonl'' v1 = (q4, v2)"
        by (cases "log_run E (error_entry rd e) ''log.jsonl'' v1") auto
      from log_run_rej [where E = E and r = r and data = "error_entry rd e"
          and path = "''log.jsonl''", OF s1] c d
      have "q4 = q3" "same_but_docs w2 v2" by simp_all
      with p pr a b q Inl c d show ?thesis
        by (simp add: cycle_def split: sum.splits)
    next
      case (Inr u)
      with p pr a b q s1 show ?thesis
        by (simp add: cycle_def split: sum.splits)
    qed
  qed
qed

lemma save_loop_new:
  "save_loop E md xs w = (n, xs', out, w') \<Longrightarrow> \<exists>new. docs w' = docs w @ new \<and> length new = n"
  using save_loop_docs [where P = "\<lambda>_. True" and E = E and md = md and xs = xs and w = w
      and n = n and xs' = xs' and out = out and w' = w']
  by blast

text \<open>
  C5.  On an iterable batch \<^verbatim>\<open>save_items_to_db\<close> returns normally, and the number it returns
  is the number of documents the call added to the collection, that is, of the items whose
  insert succeeded.  Every other item has one line \<^verbatim>\<open>[WARN] Failed to insert item: ...\<close>
  in the output, before the summary line, and the call writes no file.  The loop goes on
  after a failure: the items that follow any part of the batch are processed as a batch of
  their own would be in the world that part left, and the counts add up.  What the store
  refuses has no effect on the cycle: with any other behaviour of the store the cycle ends
  the same way (it sleeps, or the same exception ends the process) with the same files, so
  with the same Run Record and the same status in it.
\<close>

theorem failed_insert_is_counted_out_and_tolerated:
  assumes "py_iter items = Inr xs"
  shows "(\<exists>n items' warns w' new.
            save_items_to_db E items md w
              = (Inr (n, items',
                      warns @ [''[INFO] Successfully inserted '' @ dec n @ '' of ''
                               @ dec (length xs) @ '' items into database'']), w')
            \<and> docs w' = docs w @ new \<and> length new = n
            \<and> n + length warns = length xs
            \<and> (\<forall>l \<in> set warns. starts_with ''[WARN] Failed to insert item: '' l)
            \<and> files w' = files w)
         \<and> save_loop E md (ys @ zs) w =
             (case save_loop E md ys w of
                (n1, ys', out1, w1) \<Rightarrow>
                  (case save_loop E md zs w1 of
                     (n2, zs', out2, w2) \<Rightarrow> (n1 + n2, ys' @ zs', out1 @ out2, w2)))
         \<and> alike (cycle (E\<lparr>rejects := r\<rparr>) su rd w) (cycle E su rd w)"
proof (intro conjI)
  obtain n xs' out w' where l: "save_loop E md xs w = (n, xs', out, w')"
    by (cases "save_loop E md xs w") auto
  from save_loop_new [OF l] obtain new where new: "docs w' = docs w @ new" "length new = n"
    by blast
  note c = save_loop_counts [OF l]
  from assms l have
    "save_items_to_db E items md w
       = (Inr (n, (case items of PList _ \<Rightarrow> PList xs' | _ \<Rightarrow> items),
               out @ [''[INFO] Successfully inserted '' @ dec n @ '' of ''
                      @ dec (length xs) @ '' items into database'']), w')"
    by (simp add: save_items_to_db_def)
  with new c save_loop_frame [OF l]
  show "\<exists>n items' warns w' new.
            save_items_to_db E items md w
              = (Inr (n, items',
                      warns @ [''[INFO] Successfully inserted '' @ dec n @ '' of ''
                               @ dec (length xs) @ '' items into database'']), w')
            \<and> docs w' = docs w @ new \<and> length new = n
            \<and> n + length warns = length xs
            \<and> (\<forall>l \<in> set warns. starts_with ''[WARN] Failed to insert item: '' l)
            \<and> files w' = files w"
    by blast
next
  show "save_loop E md (ys @ zs) w =
             (case save_loop E md ys w of
                (n1, ys', out1, w1) \<Rightarrow>
                  (case save_loop E md zs w1 of
                     (n2, zs', out2, w2) \<Rightarrow> (n1 + n2, ys' @ zs', out1 @ out2, w2)))"
    by (rule save_loop_append)
next
  show "alike (cycle (E\<lparr>rejects := r\<rparr>) su rd w) (cycle E su rd w)"
    by (rule cycle_rej) simp
qed

lemma dec_two: "dec (Suc (Suc 0)) = ''2''"
  by code_simp

lemma two_item_batch:
  "save_items_to_db (hi_env unique_url) (PList [hi_item, linked_item]) default_source_metadata
     stale_world
   = (Inr (1, PList [hi_stored, linked_stored],
           [''[WARN] Failed to insert item: E11000 duplicate key error collection: web_listener.articles index: url_1'',
            ''[INFO] Successfully inserted 1 of 2 items into database'']),
      \<lparr>files = Map.empty, docs = [PDict [(''text'', PStr ''old'')], linked_stored], oids = 2\<rparr>)"
  by (simp add: eval_cycle hi_env_def hi_item_def hi_stored_def stale_world_def unique_url_def
      field_or_null_def linked_item_def linked_stored_def warn_line_def dec_two)

theorem failed_insert_is_counted_out_and_tolerated_witness:
  "py_iter (PList [hi_item, linked_item]) = Inr [hi_item, linked_item]
   \<and> save_items_to_db (hi_env unique_url) (PList [hi_item, linked_item]) default_source_metadata
       stale_world
     = (Inr (1, PList [hi_stored, linked_stored],
           [''[WARN] Failed to insert item: E11000 duplicate key error collection: web_listener.articles index: url_1'',
            ''[INFO] Successfully inserted 1 of 2 items into database'']),
        \<lparr>files = Map.empty, docs = [PDict [(''text'', PStr ''old'')], linked_stored], oids = 2\<rparr>)
   \<and> alike (cycle ((hi_env unique_url)\<lparr>rejects := accept_all\<rparr>) acme_settings
              (reading_at (ok_response ''[hi]'')) stale_world)
           (cycle (hi_env unique_url) acme_settings (reading_at (ok_response ''[hi]''))
              stale_world)
   \<and> cycle (hi_env unique_url) acme_settings (reading_at (ok_response ''[hi]'')) stale_world
     = Slept \<lparr>files = [''state.json'' \<mapsto>
                       json_indent 0 (PDict [(''lastTimestamp'', PStr ''2024-01-01T00:00:00Z'')]),
                     ''data/apify_response_03-07pm.json'' \<mapsto> json_indent 0 hi_snapshot,
                     ''log.jsonl'' \<mapsto> json_text hi_record @ [CHR 0x0A]],
            docs = [PDict [(''text'', PStr ''old'')]], oids = 1\<rparr>"
proof -
  have a: "py_iter (PList [hi_item, linked_item]) = Inr [hi_item, linked_item]" by simp
  note t = failed_insert_is_counted_out_and_tolerated
    [where items = "PList [hi_item, linked_item]" and xs = "[hi_item, linked_item]"
       and E = "hi_env unique_url" and md = default_source_metadata and w = stale_world
       and ys = "[hi_item]" and zs = "[linked_item]" and r = accept_all
       and su = acme_settings and rd = "reading_at (ok_response ''[hi]'')", OF a]
  from t have c: "alike (cycle ((hi_env unique_url)\<lparr>rejects := accept_all\<rparr>) acme_settings
              (reading_at (ok_response ''[hi]'')) stale_world)
           (cycle (hi_env unique_url) acme_settings (reading_at (ok_response ''[hi]''))
              stale_world)" by blast
  from a two_item_batch c hi_cycle_rejected show ?thesis by blast
qed

subsection \<open>Metadata of persisted documents\<close>



















end
